theory Spec2Isabelle
  imports Main "HOL-Library.Word"
begin

unbundle bit_operations_syntax

chapter \<open>The programs\<close>

section \<open>Machine data\<close>

text \<open>
  All three modules are Windows x64 code: \<open>wchar_t\<close> is one 16-bit UTF-16 code unit,
  \<open>size_t\<close> is 64 bits wide, and multi-byte values lie in memory and in files with the
  least significant byte first.  A \<open>std::string\<close> is a list of bytes, a
  \<open>std::wstring\<close> a list of 16-bit units; both may hold the value 0 anywhere.
\<close>

type_synonym byte = "8 word"
type_synonym wchar = "16 word"
type_synonym u32 = "32 word"
type_synonym u64 = "64 word"
type_synonym cstring = "byte list"
type_synonym wstring = "wchar list"

definition u32_bytes :: "u32 \<Rightarrow> byte list" where
  "u32_bytes w = [ucast w, ucast (drop_bit 8 w), ucast (drop_bit 16 w), ucast (drop_bit 24 w)]"

fun bytes_u32 :: "byte list \<Rightarrow> u32" where
  "bytes_u32 [b0, b1, b2, b3] =
     ucast b0 OR push_bit 8 (ucast b1) OR push_bit 16 (ucast b2) OR push_bit 24 (ucast b3)"
| "bytes_u32 _ = 0"

definition wchar_bytes :: "wchar \<Rightarrow> byte list" where
  "wchar_bytes c = [ucast c, ucast (drop_bit 8 c)]"

definition wbytes :: "wstring \<Rightarrow> byte list" where
  "wbytes ws = concat (map wchar_bytes ws)"

text \<open>Reading a byte buffer as \<open>wchar_t[]\<close>; an odd byte at the end is not a unit.\<close>

fun bytes_wstring :: "byte list \<Rightarrow> wstring" where
  "bytes_wstring (lo # hi # bs) = (ucast lo OR push_bit 8 (ucast hi)) # bytes_wstring bs"
| "bytes_wstring _ = []"

text \<open>
  \<open>c_str()\<close> handed to a C string function (\<open>strcpy_s\<close>, \<open>wcscpy_s\<close>, \<open>strlen\<close>,
  a \<open>while (*p)\<close> loop): the units before the first 0.
\<close>

definition c_str :: "'a::zero list \<Rightarrow> 'a list" where
  "c_str s = takeWhile (\<lambda>c. c \<noteq> 0) s"

section \<open>The container \<open>std::unordered_map\<close>\<close>

text \<open>
  The map is the list of its elements in iteration order, keys distinct.  \<open>find\<close> is
  \<^const>\<open>map_of\<close>.  \<open>m[k] = v\<close> overwrites the value of a present key where it stands and
  adds an absent key; where the new element lands in the iteration order depends on the
  hash function, and the model puts it last.  \<open>erase(begin())\<close> drops the first element.
\<close>

type_synonym ('k, 'v) umap = "('k \<times> 'v) list"

fun umap_assign :: "'k \<Rightarrow> 'v \<Rightarrow> ('k, 'v) umap \<Rightarrow> ('k, 'v) umap" where
  "umap_assign k v [] = [(k, v)]"
| "umap_assign k v ((k', v') # m) =
     (if k' = k then (k, v) # m else (k', v') # umap_assign k v m)"

definition umap_erase :: "'k \<Rightarrow> ('k, 'v) umap \<Rightarrow> ('k, 'v) umap" where
  "umap_erase k m = filter (\<lambda>e. fst e \<noteq> k) m"

section \<open>File streams\<close>

text \<open>
  An open \<open>std::ifstream\<close>: the bytes not yet read and the \<open>good()\<close> flag.
  \<open>read(buf, n)\<close> on a stream that is not good stores nothing; on a good stream with
  fewer than \<open>n\<close> bytes left it stores what is left, keeps the rest of \<open>buf\<close> as it was
  and clears \<open>good()\<close>.  \<open>old\<close> is the content of \<open>buf\<close> before the call.
\<close>

record ifstream =
  rest :: "byte list"
  good :: bool

definition stream_read :: "nat \<Rightarrow> byte list \<Rightarrow> ifstream \<Rightarrow> byte list \<times> ifstream" where
  "stream_read n old s =
     (if \<not> good s then (old, s)
      else if n \<le> length (rest s) then (take n (rest s), s\<lparr>rest := drop n (rest s)\<rparr>)
      else (rest s @ drop (length (rest s)) old, s\<lparr>rest := [], good := False\<rparr>))"

definition read_u32 :: "u32 \<Rightarrow> ifstream \<Rightarrow> u32 \<times> ifstream" where
  "read_u32 old s = (case stream_read 4 (u32_bytes old) s of (bs, s') \<Rightarrow> (bytes_u32 bs, s'))"

text \<open>\<open>std::wstring w(len, L'\0'); file.read((char*)&w[0], len * sizeof(wchar_t))\<close>\<close>

definition read_wstring :: "u32 \<Rightarrow> ifstream \<Rightarrow> wstring \<times> ifstream" where
  "read_wstring len s =
     (case stream_read (unat len * 2) (replicate (unat len * 2) 0) s of
        (bs, s') \<Rightarrow> (bytes_wstring bs, s'))"

text \<open>
  The file system as the cache code sees it: the content of each file that can be opened
  for reading, and whether a path can be opened for writing.
\<close>

record filesystem =
  files :: "wstring \<rightharpoonup> byte list"
  can_create :: "wstring \<Rightarrow> bool"

section \<open>cache.cpp: \<open>TranslationCache\<close>\<close>

record TranslationCache =
  m_cache :: "(wstring, wstring) umap"
  m_maxSize :: nat
  m_hits :: u64
  m_misses :: u64

definition TranslationCache_new :: "nat \<Rightarrow> TranslationCache" where
  "TranslationCache_new maxSize =
     \<lparr>m_cache = [], m_maxSize = maxSize, m_hits = 0, m_misses = 0\<rparr>"

text \<open>\<open>Get\<close> writes the out-parameter \<open>translated\<close> only on a hit.\<close>

definition Get :: "wstring \<Rightarrow> wstring \<Rightarrow> TranslationCache \<Rightarrow> bool \<times> wstring \<times> TranslationCache" where
  "Get original translated c =
     (case map_of (m_cache c) original of
        Some v \<Rightarrow> (True, v, c\<lparr>m_hits := m_hits c + 1\<rparr>)
      | None \<Rightarrow> (False, translated, c\<lparr>m_misses := m_misses c + 1\<rparr>))"

definition EvictOldest :: "TranslationCache \<Rightarrow> TranslationCache" where
  "EvictOldest c = (if m_cache c \<noteq> [] then c\<lparr>m_cache := tl (m_cache c)\<rparr> else c)"

definition Put :: "wstring \<Rightarrow> wstring \<Rightarrow> TranslationCache \<Rightarrow> TranslationCache" where
  "Put original translated c =
     (let c1 = (if length (m_cache c) \<ge> m_maxSize c then EvictOldest c else c)
      in c1\<lparr>m_cache := umap_assign original translated (m_cache c1)\<rparr>)"

definition Contains :: "wstring \<Rightarrow> TranslationCache \<Rightarrow> bool" where
  "Contains original c = (map_of (m_cache c) original \<noteq> None)"

definition Remove :: "wstring \<Rightarrow> TranslationCache \<Rightarrow> TranslationCache" where
  "Remove original c = c\<lparr>m_cache := umap_erase original (m_cache c)\<rparr>"

definition Clear :: "TranslationCache \<Rightarrow> TranslationCache" where
  "Clear c = c\<lparr>m_cache := []\<rparr>"

definition Size :: "TranslationCache \<Rightarrow> nat" where
  "Size c = length (m_cache c)"

text \<open>
  \<open>SaveToFile\<close>.  The length fields are \<open>(uint32_t)\<close> casts of \<open>size_t\<close> values, and
  each \<open>write\<close> takes that many units from the start of the string.
\<close>

definition GSTC_MAGIC :: u32 where
  "GSTC_MAGIC = 0x47535443"

definition entry_bytes :: "wstring \<times> wstring \<Rightarrow> byte list" where
  "entry_bytes e =
     (let origLen = (of_nat (length (fst e)) :: u32);
          transLen = (of_nat (length (snd e)) :: u32)
      in u32_bytes origLen @ wbytes (take (unat origLen) (fst e)) @
         u32_bytes transLen @ wbytes (take (unat transLen) (snd e)))"

definition cache_file_bytes :: "(wstring, wstring) umap \<Rightarrow> byte list" where
  "cache_file_bytes m =
     u32_bytes GSTC_MAGIC @ u32_bytes 1 @ u32_bytes (of_nat (length m)) @
     concat (map entry_bytes m)"

definition SaveToFile :: "filesystem \<Rightarrow> wstring \<Rightarrow> TranslationCache \<Rightarrow> bool \<times> filesystem" where
  "SaveToFile fs path c =
     (if \<not> can_create fs path then (False, fs)
      else (True, fs\<lparr>files := (files fs)(path \<mapsto> cache_file_bytes (m_cache c))\<rparr>))"

text \<open>
  \<open>LoadFromFile\<close>.  The locals \<open>magic\<close>, \<open>version\<close>, \<open>count\<close>, \<open>origLen\<close> and
  \<open>transLen\<close> are not initialised: what they hold before the reads is a parameter.
  The entry loop runs while \<open>i < count && file.good()\<close>; an entry is stored only when
  the stream is still good after its four reads.  That a string of a length taken from a
  damaged file may fail to allocate is left out.
\<close>

record uninit =
  u_magic :: u32
  u_version :: u32
  u_count :: u32
  u_origLen :: u32
  u_transLen :: u32

fun load_entries :: "uninit \<Rightarrow> nat \<Rightarrow> ifstream \<Rightarrow> (wstring, wstring) umap \<Rightarrow> (wstring, wstring) umap" where
  "load_entries u 0 s m = m"
| "load_entries u (Suc n) s m =
     (if \<not> good s then m
      else
        case read_u32 (u_origLen u) s of (origLen, s1) \<Rightarrow>
        case read_wstring origLen s1 of (original, s2) \<Rightarrow>
        case read_u32 (u_transLen u) s2 of (transLen, s3) \<Rightarrow>
        case read_wstring transLen s3 of (translated, s4) \<Rightarrow>
          load_entries u n s4 (if good s4 then umap_assign original translated m else m))"

definition LoadFromFile :: "uninit \<Rightarrow> filesystem \<Rightarrow> wstring \<Rightarrow> TranslationCache \<Rightarrow> bool \<times> TranslationCache" where
  "LoadFromFile u fs path c =
     (case files fs path of
        None \<Rightarrow> (False, c)
      | Some content \<Rightarrow>
          case read_u32 (u_magic u) \<lparr>rest = content, good = True\<rparr> of (magic, s1) \<Rightarrow>
          case read_u32 (u_version u) s1 of (version, s2) \<Rightarrow>
          case read_u32 (u_count u) s2 of (count, s3) \<Rightarrow>
            if magic \<noteq> GSTC_MAGIC \<or> version \<noteq> 1 then (False, c)
            else (True, c\<lparr>m_cache := load_entries u (unat count) s3 []\<rparr>))"

text \<open>What the entry loop of \<open>LoadFromFile\<close> builds from well-formed entries: \<open>m[k] = v\<close> for each, in file order.\<close>

definition store_all :: "(wstring \<times> wstring) list \<Rightarrow> (wstring, wstring) umap \<Rightarrow> (wstring, wstring) umap" where
  "store_all es m = foldl (\<lambda>m e. umap_assign (fst e) (snd e) m) m es"

text \<open>
  The public operations that change or query the map, as values, and the states a cache
  passes through under a sequence of them (the state after each call).
\<close>

datatype cache_op = Op_Put wstring wstring | Op_Get wstring | Op_Remove wstring | Op_Clear

fun apply_op :: "cache_op \<Rightarrow> TranslationCache \<Rightarrow> TranslationCache" where
  "apply_op (Op_Put original translated) c = Put original translated c"
| "apply_op (Op_Get original) c = snd (snd (Get original [] c))"
| "apply_op (Op_Remove original) c = Remove original c"
| "apply_op Op_Clear c = Clear c"

fun cache_trace :: "cache_op list \<Rightarrow> TranslationCache \<Rightarrow> TranslationCache list" where
  "cache_trace [] c = []"
| "cache_trace (x # xs) c = apply_op x c # cache_trace xs (apply_op x c)"

section \<open>ipc.cpp: the pipe transport of the Unreal hook module\<close>

text \<open>
  The statics of ipc.cpp.  \<open>g_hPipe\<close> records whether the handle is valid;
  \<open>pipe_written\<close> collects what \<open>WriteFile\<close> has sent.  Whether a \<open>WriteFile\<close>
  succeeds is decided by the other end of the pipe and is an argument.
\<close>

record ipc_state =
  g_hPipe :: bool
  g_connected :: bool
  g_running :: bool
  g_pendingResponses :: "u32 \<rightharpoonup> wstring"
  g_nextRequestId :: u32
  pipe_written :: "byte list list"

definition IsConnected :: "ipc_state \<Rightarrow> bool" where
  "IsConnected s = g_connected s"

definition TRANSLATE_REQUEST :: u32 where "TRANSLATE_REQUEST = 1"
definition TRANSLATE_RESPONSE :: u32 where "TRANSLATE_RESPONSE = 101"
definition CONFIG_UPDATE :: u32 where "CONFIG_UPDATE = 102"
definition SHUTDOWN :: u32 where "SHUTDOWN = 103"

definition SendTranslateRequest :: "bool \<Rightarrow> wstring \<Rightarrow> ipc_state \<Rightarrow> u32 \<times> ipc_state" where
  "SendTranslateRequest write_ok text s =
     (if \<not> g_connected s \<or> \<not> g_hPipe s then (0, s)
      else
        let requestId = g_nextRequestId s;
            s1 = s\<lparr>g_nextRequestId := requestId + 1\<rparr>;
            textBytes = length text * 2;
            buffer = u32_bytes TRANSLATE_REQUEST @ u32_bytes requestId @
                     u32_bytes (of_nat textBytes) @ wbytes text
        in if \<not> write_ok then (0, s1)
           else (requestId,
                 s1\<lparr>pipe_written := pipe_written s1 @ [take (length buffer mod 2 ^ 32) buffer]\<rparr>))"

text \<open>
  \<open>ReceiveTranslateResponse\<close> holds \<open>g_responseMutex\<close> except inside
  \<open>wait_until\<close>.  Each return of \<open>wait_until\<close> is a \<open>wake\<close>: the responses
  the receive thread stored under the mutex while the caller slept, and whether the
  status was \<open>no_timeout\<close> (\<open>Woken\<close>) or \<open>timeout\<close> (\<open>TimedOut\<close>).  The deadline
  is fixed before the loop, so the waits of one call are finitely many and, unless the
  response shows up, end with a timeout; a list that runs out stands for that timeout.
  On \<open>timeout\<close> the function returns at once, without looking at the map again.
\<close>

datatype wake = Woken "(u32 \<times> wstring) list" | TimedOut "(u32 \<times> wstring) list"

definition store_responses :: "(u32 \<times> wstring) list \<Rightarrow> ipc_state \<Rightarrow> ipc_state" where
  "store_responses rs s =
     s\<lparr>g_pendingResponses := foldl (\<lambda>m r. m(fst r \<mapsto> snd r)) (g_pendingResponses s) rs\<rparr>"

fun ReceiveTranslateResponse ::
  "u32 \<Rightarrow> wstring \<Rightarrow> wake list \<Rightarrow> ipc_state \<Rightarrow> bool \<times> wstring \<times> ipc_state" where
  "ReceiveTranslateResponse requestId translatedText [] s =
     (case g_pendingResponses s requestId of
        Some t \<Rightarrow> (True, t, s\<lparr>g_pendingResponses := (g_pendingResponses s)(requestId := None)\<rparr>)
      | None \<Rightarrow> (False, translatedText, s))"
| "ReceiveTranslateResponse requestId translatedText (w # ws) s =
     (case g_pendingResponses s requestId of
        Some t \<Rightarrow> (True, t, s\<lparr>g_pendingResponses := (g_pendingResponses s)(requestId := None)\<rparr>)
      | None \<Rightarrow>
          (case w of
             TimedOut rs \<Rightarrow> (False, translatedText, store_responses rs s)
           | Woken rs \<Rightarrow> ReceiveTranslateResponse requestId translatedText ws (store_responses rs s)))"

text \<open>
  The receive thread.  Each \<open>ReadFile\<close> either fails with an error code or places a
  message at the start of the 65536-byte buffer, whose tail keeps what earlier reads
  left there.  The text of a response is the \<open>dataLength / 2\<close> units after the
  12-byte header, whatever \<open>bytesRead\<close> was; reading past the buffer is a fault.  The
  message callback is never set in this repository.  The list of read results is what
  the pipe delivers; when it runs out the thread is blocked in \<open>ReadFile\<close>.  A failed
  read is taken to leave the buffer as it was.
\<close>

datatype fault = OutOfBounds

datatype read_result = ReadError u32 | ReadData "byte list"

definition ERROR_BROKEN_PIPE :: u32 where "ERROR_BROKEN_PIPE = 109"
definition ERROR_PIPE_NOT_CONNECTED :: u32 where "ERROR_PIPE_NOT_CONNECTED = 233"

definition dispatch_message :: "byte list \<Rightarrow> ipc_state \<Rightarrow> fault + ipc_state" where
  "dispatch_message buffer s =
     (let msg_type = bytes_u32 (take 4 buffer);
          requestId = bytes_u32 (take 4 (drop 4 buffer));
          dataLength = bytes_u32 (take 4 (drop 8 buffer))
      in if msg_type = TRANSLATE_RESPONSE then
           (if 12 + (unat dataLength div 2) * 2 \<le> length buffer
            then Inr (s\<lparr>g_pendingResponses := (g_pendingResponses s)
                        (requestId \<mapsto> bytes_wstring (take ((unat dataLength div 2) * 2) (drop 12 buffer)))\<rparr>)
            else Inl OutOfBounds)
         else if msg_type = CONFIG_UPDATE then Inr s
         else if msg_type = SHUTDOWN then Inr (s\<lparr>g_running := False\<rparr>)
         else Inr s)"

fun ReceiveThreadFunc :: "read_result list \<Rightarrow> byte list \<Rightarrow> ipc_state \<Rightarrow> fault + ipc_state" where
  "ReceiveThreadFunc [] buffer s = Inr s"
| "ReceiveThreadFunc (r # rs) buffer s =
     (if \<not> (g_running s \<and> g_connected s) then Inr s
      else case r of
        ReadError e \<Rightarrow>
          if e = ERROR_BROKEN_PIPE \<or> e = ERROR_PIPE_NOT_CONNECTED then Inr (s\<lparr>g_connected := False\<rparr>)
          else ReceiveThreadFunc rs buffer s
      | ReadData d \<Rightarrow>
          let buffer' = d @ drop (length d) buffer
          in if length d < 12 then ReceiveThreadFunc rs buffer' s
             else case dispatch_message buffer' s of
                    Inl f \<Rightarrow> Inl f
                  | Inr s' \<Rightarrow> ReceiveThreadFunc rs buffer' s')"

section \<open>translator.cpp\<close>

record TranslatorConfig =
  targetLanguage :: wstring
  sourceLanguage :: wstring
  enabled :: bool
  cacheEnabled :: bool
  maxCacheSize :: int
  cachePath :: wstring

record TranslatorStats =
  totalRequests :: u64
  cacheHits :: u64
  cacheMisses :: u64
  translationErrors :: u64
  averageLatencyMs :: u64

record translator =
  g_config :: TranslatorConfig
  g_initialized :: bool
  g_stats :: TranslatorStats
  g_globalCache :: TranslationCache
  ipc :: ipc_state

text \<open>
  What one call of \<open>Translate\<close> meets outside the module: the outcome of
  \<open>WriteFile\<close>, the wake-ups of the wait, and the two clock readings.
\<close>

record translate_env =
  write_ok :: bool
  wakes :: "wake list"
  startTime :: u64
  endTime :: u64

definition Translate :: "translate_env \<Rightarrow> wstring \<Rightarrow> translator \<Rightarrow> wstring \<times> translator" where
  "Translate env originalText st =
     (if \<not> g_initialized st \<or> \<not> enabled (g_config st) then (originalText, st)
      else
        let st1 = st\<lparr>g_stats := (g_stats st)\<lparr>totalRequests := totalRequests (g_stats st) + 1\<rparr>\<rparr>
        in case Get originalText [] (g_globalCache st1) of
          (found, translated, cache1) \<Rightarrow>
            if found
            then (translated,
                  st1\<lparr>g_globalCache := cache1,
                      g_stats := (g_stats st1)\<lparr>cacheHits := cacheHits (g_stats st1) + 1\<rparr>\<rparr>)
            else
              let st2 = st1\<lparr>g_globalCache := cache1,
                            g_stats := (g_stats st1)\<lparr>cacheMisses := cacheMisses (g_stats st1) + 1\<rparr>\<rparr>
              in if IsConnected (ipc st2) then
                   (case SendTranslateRequest (write_ok env) originalText (ipc st2) of
                      (requestId, ipc1) \<Rightarrow>
                        let st3 = st2\<lparr>ipc := ipc1\<rparr>;
                            failed = (\<lambda>s. (originalText,
                              s\<lparr>g_stats := (g_stats s)\<lparr>translationErrors := translationErrors (g_stats s) + 1\<rparr>\<rparr>))
                        in if requestId > 0 then
                             (case ReceiveTranslateResponse requestId translated (wakes env) ipc1 of
                                (received, translated', ipc2) \<Rightarrow>
                                  if received then
                                    (let latency = endTime env - startTime env
                                     in (translated',
                                         st3\<lparr>ipc := ipc2,
                                             g_stats := (g_stats st3)\<lparr>averageLatencyMs :=
                                               (averageLatencyMs (g_stats st3) + latency) div 2\<rparr>,
                                             g_globalCache := Put originalText translated' (g_globalCache st3)\<rparr>))
                                  else failed (st3\<lparr>ipc := ipc2\<rparr>))
                           else failed st3)
                 else (originalText, st2))"

text \<open>A well-formed \<open>TRANSLATE_RESPONSE\<close> message as the server frames it.\<close>

definition response_message :: "u32 \<Rightarrow> wstring \<Rightarrow> byte list" where
  "response_message requestId text =
     u32_bytes TRANSLATE_RESPONSE @ u32_bytes requestId @ u32_bytes (of_nat (length text * 2)) @ wbytes text"

section \<open>Strings of the C and C++ libraries\<close>

text \<open>
  \<open>s.find(pattern, pos)\<close> of \<open>std::basic_string\<close>: the least index \<open>\<ge> pos\<close> at
  which \<open>pattern\<close> occurs in \<open>s\<close>, \<open>None\<close> for \<open>npos\<close>.  The empty pattern occurs
  at every index up to and including \<open>s.size()\<close>.
\<close>

fun find_first :: "'a list \<Rightarrow> 'a list \<Rightarrow> nat option" where
  "find_first pattern [] = (if pattern = [] then Some 0 else None)"
| "find_first pattern (c # s) =
     (if take (length pattern) (c # s) = pattern then Some 0
      else map_option Suc (find_first pattern s))"

definition string_find :: "'a list \<Rightarrow> 'a list \<Rightarrow> nat \<Rightarrow> nat option" where
  "string_find s pattern pos =
     (if length s < pos then None
      else map_option (\<lambda>i. pos + i) (find_first pattern (drop pos s)))"

text \<open>Narrow and wide string literals of the source, as code units.\<close>

definition bytes_of :: "string \<Rightarrow> cstring" where
  "bytes_of s = map of_char s"

definition wide_of :: "string \<Rightarrow> wstring" where
  "wide_of s = map of_char s"

text \<open>
  \<open>strcpy_s(dest, destsz, src)\<close> and \<open>wcscpy_s\<close>: the units of \<open>src\<close> before its
  first 0 and a terminating 0 overwrite the start of \<open>dest\<close>; when they do not fit
  in \<open>destsz\<close> units the invalid-parameter handler ends the process (\<open>None\<close>).
\<close>

definition strcpy_s :: "'a::zero list \<Rightarrow> nat \<Rightarrow> 'a list \<Rightarrow> 'a list option" where
  "strcpy_s dest destsz src =
     (if length (c_str src) < destsz
      then Some (c_str src @ [0] @ drop (length (c_str src) + 1) dest)
      else None)"

text \<open>The cast \<open>(int)\<close> of a \<open>size_t\<close>.\<close>

definition int_cast :: "nat \<Rightarrow> int" where
  "int_cast n = sint (of_nat n :: 32 word)"

section \<open>unity-translator-dll: ipc\_client.h and main.cpp\<close>

text \<open>
  \<open>IPCClient\<close>.  Whether the pipe can be opened, what \<open>WriteFile\<close> and \<open>ReadFile\<close>
  do, and the two Win32 code-page conversions are what the module meets outside
  itself.  A conversion takes a terminated string and yields the converted units without
  the terminator, or \<open>None\<close> where the call returns 0.
\<close>

record IPCClient =
  m_hPipe :: bool
  m_Connected :: bool

definition IPCClient_IsConnected :: "IPCClient \<Rightarrow> bool" where
  "IPCClient_IsConnected c = (m_Connected c \<and> m_hPipe c)"

definition Disconnect :: "IPCClient \<Rightarrow> IPCClient" where
  "Disconnect c = c\<lparr>m_hPipe := False, m_Connected := False\<rparr>"

datatype pipe_open = WaitNamedPipe_fails | CreateFile_fails | Pipe_opened

definition Connect :: "pipe_open \<Rightarrow> IPCClient \<Rightarrow> bool \<times> IPCClient" where
  "Connect outcome c =
     (if m_Connected c then (True, c)
      else case outcome of
             WaitNamedPipe_fails \<Rightarrow> (False, c)
           | CreateFile_fails \<Rightarrow> (False, c\<lparr>m_hPipe := False\<rparr>)
           | Pipe_opened \<Rightarrow> (True, c\<lparr>m_hPipe := True, m_Connected := True\<rparr>))"

datatype pipe_io = WriteFails | ReadFails | Reply "byte list"

record unity_env =
  WideCharToMultiByte :: "wstring \<Rightarrow> cstring option"
  MultiByteToWideChar :: "cstring \<Rightarrow> wstring option"
  io :: pipe_io

fun json_escape :: "cstring \<Rightarrow> cstring" where
  "json_escape [] = []"
| "json_escape (c # cs) =
     (if c = 0x22 then [0x5C, 0x22] @ json_escape cs
      else if c = 0x5C then [0x5C, 0x5C] @ json_escape cs
      else if c = 0x0A then [0x5C, 0x6E] @ json_escape cs
      else if c = 0x0D then [0x5C, 0x72] @ json_escape cs
      else if c = 0x09 then [0x5C, 0x74] @ json_escape cs
      else if c \<noteq> 0 then c # json_escape cs
      else json_escape cs)"

fun json_unescape :: "cstring \<Rightarrow> cstring" where
  "json_unescape [] = []"
| "json_unescape [c] = [c]"
| "json_unescape (c # n # cs) =
     (if c = 0x5C then
        (if n = 0x6E then 0x0A # json_unescape cs
         else if n = 0x72 then 0x0D # json_unescape cs
         else if n = 0x74 then 0x09 # json_unescape cs
         else if n = 0x22 then 0x22 # json_unescape cs
         else if n = 0x5C then 0x5C # json_unescape cs
         else c # json_unescape (n # cs))
      else c # json_unescape (n # cs))"

text \<open>The literals \<open>{"type":"translate","text":"\<close> and \<open>"translated":"\<close> (14 bytes).\<close>

definition json_request_head :: cstring where
  "json_request_head =
     [0x7B, 0x22] @ bytes_of ''type'' @ [0x22, 0x3A, 0x22] @ bytes_of ''translate'' @ [0x22, 0x2C, 0x22] @
     bytes_of ''text'' @ [0x22, 0x3A, 0x22]"

definition json_translated_key :: cstring where
  "json_translated_key = [0x22] @ bytes_of ''translated'' @ [0x22, 0x3A, 0x22]"

definition RequestTranslation :: "unity_env \<Rightarrow> wstring \<Rightarrow> IPCClient \<Rightarrow> wstring \<times> IPCClient" where
  "RequestTranslation env text c =
     (if \<not> IPCClient_IsConnected c then (text, c)
      else
        let utf8Text = (case WideCharToMultiByte env (c_str text) of
                          None \<Rightarrow> [] | Some bs \<Rightarrow> bs @ [0]);
            json = json_request_head @ json_escape utf8Text @ [0x22, 0x7D]
        in case io env of
             WriteFails \<Rightarrow> (text, Disconnect c)
           | ReadFails \<Rightarrow> (text, Disconnect c)
           | Reply received \<Rightarrow>
               let response = c_str received
               in case string_find response json_translated_key 0 of
                    None \<Rightarrow> (text, c)
                  | Some found \<Rightarrow>
                      let pos = found + 14
                      in case string_find response [0x22] pos of
                           None \<Rightarrow> (text, c)
                         | Some endPos \<Rightarrow>
                             let translatedUtf8 = take (endPos - pos) (drop pos response);
                                 unescaped = json_unescape translatedUtf8
                             in case MultiByteToWideChar env (c_str unescaped) of
                                  None \<Rightarrow> ([], c)
                                | Some result \<Rightarrow> (result, c))"

text \<open>
  The statics of main.cpp.  A detour returns what one of the two original functions
  returns; the model records which original is called and with which arguments.  The
  argument \<open>text\<close> of \<open>mono_string_new\<close> is a terminated string, given by the bytes
  before its terminator, \<open>None\<close> for a null pointer.  The block that looks the text
  up in the cache and otherwise asks the server stands in both detours, word for word
  (lines 117-134 and 153-170); it is \<open>cache_or_request\<close>.  The debug output is left out.
\<close>

record unity =
  g_TranslationEnabled :: bool
  g_Initialized :: bool
  g_TranslationCache :: "(wstring, wstring) umap"
  g_IPCClient :: "IPCClient option"
  g_StringCount :: int

datatype mono_call =
    Original_mono_string_new "cstring option"
  | Original_mono_string_new_utf16 "wstring option" int

definition cache_or_request :: "unity_env \<Rightarrow> wstring \<Rightarrow> mono_call \<Rightarrow> unity \<Rightarrow> mono_call \<times> unity" where
  "cache_or_request env wtext call_through st =
     (case (case map_of (g_TranslationCache st) wtext of
              Some cached \<Rightarrow> if cached \<noteq> [] then Some cached else None
            | None \<Rightarrow> None) of
        Some cached \<Rightarrow> (Original_mono_string_new_utf16 (Some cached) (int_cast (length cached)), st)
      | None \<Rightarrow>
          (case g_IPCClient st of
             None \<Rightarrow> (call_through, st)
           | Some client \<Rightarrow>
               if IPCClient_IsConnected client then
                 (case RequestTranslation env wtext client of
                    (translated, client') \<Rightarrow>
                      if translated \<noteq> [] \<and> translated \<noteq> wtext
                      then (Original_mono_string_new_utf16 (Some translated) (int_cast (length translated)),
                            st\<lparr>g_IPCClient := Some client',
                               g_TranslationCache := umap_assign wtext translated (g_TranslationCache st)\<rparr>)
                      else (call_through, st\<lparr>g_IPCClient := Some client'\<rparr>))
               else (call_through, st)))"

definition Hook_mono_string_new :: "unity_env \<Rightarrow> cstring option \<Rightarrow> unity \<Rightarrow> mono_call \<times> unity" where
  "Hook_mono_string_new env text st =
     (let st0 = st\<lparr>g_StringCount := g_StringCount st + 1\<rparr>
      in case text of
           None \<Rightarrow> (Original_mono_string_new text, st0)
         | Some chars \<Rightarrow>
             let len = length chars
             in if \<not> g_TranslationEnabled st0 \<or> \<not> g_Initialized st0 \<or> len < 3
                then (Original_mono_string_new text, st0)
                else if len > 500 then (Original_mono_string_new text, st0)
                else if 0x2F \<in> set chars \<or> 0x5C \<in> set chars \<or> 0x7B \<in> set chars \<or> 0x3C \<in> set chars
                then (Original_mono_string_new text, st0)
                else case MultiByteToWideChar env chars of
                       None \<Rightarrow> (Original_mono_string_new text, st0)
                     | Some wtext \<Rightarrow> cache_or_request env wtext (Original_mono_string_new text) st0)"

definition Hook_mono_string_new_utf16 :: "unity_env \<Rightarrow> wstring option \<Rightarrow> int \<Rightarrow> unity \<Rightarrow> mono_call \<times> unity" where
  "Hook_mono_string_new_utf16 env text len st =
     (case text of
        None \<Rightarrow> (Original_mono_string_new_utf16 text len, st)
      | Some units \<Rightarrow>
          if \<not> g_TranslationEnabled st \<or> \<not> g_Initialized st \<or> len < 3 \<or> len > 500
          then (Original_mono_string_new_utf16 text len, st)
          else
            let wtext = take (nat len) units
            in if string_find wtext [0x2F] 0 \<noteq> None \<or> string_find wtext [0x5C] 0 \<noteq> None \<or>
                  string_find wtext [0x7B] 0 \<noteq> None \<or> string_find wtext [0x3C] 0 \<noteq> None
               then (Original_mono_string_new_utf16 text len, st)
               else cache_or_request env wtext (Original_mono_string_new_utf16 text len) st)"

definition ToggleTranslation :: "unity \<Rightarrow> unity" where
  "ToggleTranslation st = st\<lparr>g_TranslationEnabled := \<not> g_TranslationEnabled st\<rparr>"

definition GetCacheSize :: "unity \<Rightarrow> int" where
  "GetCacheSize st = int_cast (length (g_TranslationCache st))"

definition ClearCache :: "unity \<Rightarrow> unity" where
  "ClearCache st = st\<lparr>g_TranslationCache := []\<rparr>"

text \<open>
  The module after \<open>DLL_PROCESS_ATTACH\<close>, and the steps of \<open>TranslatorThread\<close>: the
  start (create the client, connect, set \<open>g_Initialized\<close>) and one round of its loop,
  whose \<open>ProcessMessages\<close> reads one message and drops it; and \<open>Cleanup\<close>.
\<close>

definition unity_loaded :: unity where
  "unity_loaded = \<lparr>g_TranslationEnabled = True, g_Initialized = False, g_TranslationCache = [],
                    g_IPCClient = None, g_StringCount = 0\<rparr>"

definition TranslatorThread_start :: "pipe_open \<Rightarrow> unity \<Rightarrow> unity" where
  "TranslatorThread_start outcome st =
     st\<lparr>g_IPCClient := Some (snd (Connect outcome \<lparr>m_hPipe = False, m_Connected = False\<rparr>)),
        g_Initialized := True\<rparr>"

definition TranslatorThread_poll :: "pipe_open \<Rightarrow> unity \<Rightarrow> unity" where
  "TranslatorThread_poll outcome st =
     (case g_IPCClient st of
        None \<Rightarrow> st
      | Some client \<Rightarrow>
          if \<not> IPCClient_IsConnected client
          then st\<lparr>g_IPCClient := Some (snd (Connect outcome client))\<rparr>
          else st)"

definition Cleanup :: "unity \<Rightarrow> unity" where
  "Cleanup st = st\<lparr>g_Initialized := False, g_IPCClient := None, g_TranslationCache := []\<rparr>"

section \<open>unreal-translator/hook-dll: hooks.cpp\<close>

text \<open>
  \<open>FString\<close> of ue\_types.h: \<open>Data\<close> is the buffer the pointer refers to (\<open>None\<close> for
  null), taken to hold at least \<open>ArrayNum\<close> and \<open>ArrayMax\<close> units.  The detour receives what the
  original \<open>FText::ToString\<close> returned.
\<close>

datatype abort = InvalidParameter

record FString =
  Data :: "wstring option"
  ArrayNum :: "32 word"
  ArrayMax :: "32 word"

definition Len :: "FString \<Rightarrow> nat" where
  "Len f = (if 0 < sint (ArrayNum f) then nat (sint (ArrayNum f) - 1) else 0)"

definition Hooked_FText_ToString ::
  "translate_env \<Rightarrow> FString option \<Rightarrow> translator \<Rightarrow> (abort + FString option) \<times> translator" where
  "Hooked_FText_ToString env result st =
     (case result of
        None \<Rightarrow> (Inr result, st)
      | Some r \<Rightarrow>
          (case Data r of
             None \<Rightarrow> (Inr result, st)
           | Some data \<Rightarrow>
               if Len r > 0 then
                 (let originalText = take (Len r) data
                  in if length originalText > 2 \<and>
                        string_find originalText (wide_of ''::'') 0 = None \<and>
                        string_find originalText (wide_of ''//'') 0 = None
                     then
                       (case Translate env originalText st of
                          (translated, st') \<Rightarrow>
                            if translated \<noteq> originalText \<and> translated \<noteq> [] then
                              (let len = length translated
                               in if len < unat (scast (ArrayMax r) :: 64 word) then
                                    (case strcpy_s data (unat (scast (ArrayMax r) :: 64 word)) translated of
                                       None \<Rightarrow> (Inl InvalidParameter, st')
                                     | Some data' \<Rightarrow>
                                         (Inr (Some (r\<lparr>Data := Some data', ArrayNum := of_nat (len + 1)\<rparr>)), st'))
                                  else (Inr result, st'))
                            else (Inr result, st'))
                     else (Inr result, st))
               else (Inr result, st)))"

section \<open>The translatability filter of the specification\<close>

text \<open>
  In the words of the specification: reject empty; reject length \<open>< 3\<close> or \<open>> 500\<close>;
  reject a string that contains any of \<open>/\<close>, \<open>\\\<close>, \<open>{\<close>, \<open><\<close>; all remaining
  strings are candidates.
\<close>

definition translatable :: "'a::len word list \<Rightarrow> bool" where
  "translatable s =
     (s \<noteq> [] \<and> \<not> (length s < 3 \<or> length s > 500) \<and>
      \<not> (0x2F \<in> set s \<or> 0x5C \<in> set s \<or> 0x7B \<in> set s \<or> 0x3C \<in> set s))"

section \<open>Runs of the Unity module\<close>

text \<open>
  Every stored translation is non-empty and differs from its key; and the calls that
  reach the statics of main.cpp, as events, with the state a sequence of them leads to.
\<close>

definition entries_differ :: "(wstring, wstring) umap \<Rightarrow> bool" where
  "entries_differ m = list_all (\<lambda>e. snd e \<noteq> [] \<and> snd e \<noteq> fst e) m"

datatype unity_event =
    Ev_mono_string_new unity_env "cstring option"
  | Ev_mono_string_new_utf16 unity_env "wstring option" int
  | Ev_ToggleTranslation
  | Ev_ClearCache
  | Ev_TranslatorThread_start pipe_open
  | Ev_TranslatorThread_poll pipe_open
  | Ev_Cleanup

fun unity_step :: "unity_event \<Rightarrow> unity \<Rightarrow> unity" where
  "unity_step (Ev_mono_string_new env text) st = snd (Hook_mono_string_new env text st)"
| "unity_step (Ev_mono_string_new_utf16 env text len) st = snd (Hook_mono_string_new_utf16 env text len st)"
| "unity_step Ev_ToggleTranslation st = ToggleTranslation st"
| "unity_step Ev_ClearCache st = ClearCache st"
| "unity_step (Ev_TranslatorThread_start outcome) st = TranslatorThread_start outcome st"
| "unity_step (Ev_TranslatorThread_poll outcome) st = TranslatorThread_poll outcome st"
| "unity_step Ev_Cleanup st = Cleanup st"

definition unity_run :: "unity_event list \<Rightarrow> unity \<Rightarrow> unity" where
  "unity_run evs st = foldl (\<lambda>s ev. unity_step ev s) st evs"

text \<open>States and surroundings for the worked examples.\<close>

definition example_unity_env :: "byte list \<Rightarrow> unity_env" where
  "example_unity_env received =
     \<lparr>WideCharToMultiByte = (\<lambda>w. Some (map ucast w)),
      MultiByteToWideChar = (\<lambda>b. Some (map ucast b)),
      io = Reply received\<rparr>"

definition example_unity :: unity where
  "example_unity =
     \<lparr>g_TranslationEnabled = True, g_Initialized = True,
      g_TranslationCache = [(wide_of ''Player'', wide_of ''Giocatore'')],
      g_IPCClient = Some \<lparr>m_hPipe = True, m_Connected = True\<rparr>, g_StringCount = 0\<rparr>"

definition example_translator :: translator where
  "example_translator =
     \<lparr>g_config = \<lparr>targetLanguage = wide_of ''it'', sourceLanguage = wide_of ''en'', enabled = True,
                  cacheEnabled = True, maxCacheSize = 10000, cachePath = []\<rparr>,
      g_initialized = True,
      g_stats = \<lparr>totalRequests = 0, cacheHits = 0, cacheMisses = 0, translationErrors = 0,
                 averageLatencyMs = 0\<rparr>,
      g_globalCache = TranslationCache_new 10000,
      ipc = \<lparr>g_hPipe = False, g_connected = False, g_running = False, g_pendingResponses = Map.empty,
             g_nextRequestId = 1, pipe_written = []\<rparr>\<rparr>"

section \<open>native: the target process\<close>

text \<open>
  The target process as the Win32 calls of injector.cc and memory\_utils.cc show it:
  its bytes and page protection by address, which ranges \<open>VirtualProtectEx\<close> and
  \<open>WriteProcessMemory\<close> accept, and the regions that the \<open>VirtualQueryEx\<close> walk
  from the lowest to the highest application address meets, in that order.  A
  successful \<open>ReadProcessMemory\<close> or \<open>WriteProcessMemory\<close> transfers the whole range.
  \<open>VirtualProtectEx\<close> yields the former protection of the first address.
\<close>

record region =
  r_base :: nat
  r_size :: nat
  r_state :: u32
  r_protect :: u32
  r_readable :: bool

record process =
  memory :: "nat \<Rightarrow> byte"
  protection :: "nat \<Rightarrow> u32"
  can_protect :: "nat \<Rightarrow> nat \<Rightarrow> bool"
  can_write :: "nat \<Rightarrow> nat \<Rightarrow> bool"
  address_space :: "region list"

definition MEM_COMMIT :: u32 where "MEM_COMMIT = 0x1000"
definition PAGE_READONLY :: u32 where "PAGE_READONLY = 0x02"
definition PAGE_READWRITE :: u32 where "PAGE_READWRITE = 0x04"
definition PAGE_EXECUTE_READ :: u32 where "PAGE_EXECUTE_READ = 0x20"
definition PAGE_EXECUTE_READWRITE :: u32 where "PAGE_EXECUTE_READWRITE = 0x40"

definition VirtualProtectEx :: "process \<Rightarrow> nat \<Rightarrow> nat \<Rightarrow> u32 \<Rightarrow> (u32 \<times> process) option" where
  "VirtualProtectEx p address nbytes newProtect =
     (if can_protect p address nbytes
      then Some (protection p address,
                 p\<lparr>protection := (\<lambda>a. if address \<le> a \<and> a < address + nbytes then newProtect
                                     else protection p a)\<rparr>)
      else None)"

definition WriteProcessMemory :: "process \<Rightarrow> nat \<Rightarrow> byte list \<Rightarrow> nat \<Rightarrow> bool \<times> process" where
  "WriteProcessMemory p address buffer nbytes =
     (if can_write p address nbytes
      then (True, p\<lparr>memory := (\<lambda>a. if address \<le> a \<and> a < address + nbytes then buffer ! (a - address)
                                  else memory p a)\<rparr>)
      else (False, p))"

definition read_range :: "process \<Rightarrow> nat \<Rightarrow> nat \<Rightarrow> byte list" where
  "read_range p address nbytes = map (memory p) [address ..< address + nbytes]"

definition ReadProcessMemory :: "process \<Rightarrow> region \<Rightarrow> byte list option" where
  "ReadProcessMemory p r = (if r_readable r then Some (read_range p (r_base r) (r_size r)) else None)"

section \<open>injector.cc\<close>

text \<open>
  The scratch buffer holds \<open>original.length() + 1\<close> zero units; \<open>wcscpy_s\<close> (or
  \<open>strcpy_s\<close>) copies \<open>replacement.c_str()\<close> into it, the loop
  \<open>for (i = replacement.length(); i < original.length(); i++) buffer[i] = ' '\<close> follows,
  and the first \<open>original.length()\<close> units are written to the target.  The result of
  the second \<open>VirtualProtectEx\<close> is ignored.
\<close>

definition fill_spaces :: "'a list \<Rightarrow> nat \<Rightarrow> nat \<Rightarrow> 'a \<Rightarrow> 'a list" where
  "fill_spaces buffer start stop sp = foldl (\<lambda>b i. b[i := sp]) buffer [start ..< stop]"

definition ReplaceTextInMemory :: "process \<Rightarrow> nat \<Rightarrow> wstring \<Rightarrow> wstring \<Rightarrow> abort + (bool \<times> process)" where
  "ReplaceTextInMemory p address original replacement =
     (if length replacement > length original then Inr (False, p)
      else
        let nbytes = length original * 2
        in case VirtualProtectEx p address nbytes PAGE_EXECUTE_READWRITE of
             None \<Rightarrow> Inr (False, p)
           | Some (oldProtect, p1) \<Rightarrow>
               (case strcpy_s (replicate (length original + 1) 0) (length original + 1) replacement of
                  None \<Rightarrow> Inl InvalidParameter
                | Some copied \<Rightarrow>
                    let buffer = fill_spaces copied (length replacement) (length original) 0x20
                    in case WriteProcessMemory p1 address (wbytes buffer) nbytes of
                         (success, p2) \<Rightarrow>
                           Inr (success,
                                case VirtualProtectEx p2 address nbytes oldProtect of
                                  None \<Rightarrow> p2
                                | Some (_, p3) \<Rightarrow> p3)))"

definition ReplaceTextInMemoryASCII :: "process \<Rightarrow> nat \<Rightarrow> cstring \<Rightarrow> cstring \<Rightarrow> abort + (bool \<times> process)" where
  "ReplaceTextInMemoryASCII p address original replacement =
     (if length replacement > length original then Inr (False, p)
      else
        let nbytes = length original
        in case VirtualProtectEx p address nbytes PAGE_EXECUTE_READWRITE of
             None \<Rightarrow> Inr (False, p)
           | Some (oldProtect, p1) \<Rightarrow>
               (case strcpy_s (replicate (length original + 1) 0) (length original + 1) replacement of
                  None \<Rightarrow> Inl InvalidParameter
                | Some copied \<Rightarrow>
                    let buffer = fill_spaces copied (length replacement) (length original) 0x20
                    in case WriteProcessMemory p1 address buffer nbytes of
                         (success, p2) \<Rightarrow>
                           Inr (success,
                                case VirtualProtectEx p2 address nbytes oldProtect of
                                  None \<Rightarrow> p2
                                | Some (_, p3) \<Rightarrow> p3)))"

text \<open>
  The loop \<open>while ((pos = bufferStr.find(pattern, pos)) != npos)\<close> of the two text
  scans, which appends \<open>addr + pos * unit\<close> and advances by the pattern length.  It need
  not end; \<open>None\<close> is the run that never returns.
\<close>

partial_function (option) find_occurrences ::
  "'a list \<Rightarrow> 'a list \<Rightarrow> nat \<Rightarrow> nat \<Rightarrow> nat \<Rightarrow> nat list \<Rightarrow> nat list option" where
  "find_occurrences bufferStr pattern addr unit pos addresses =
     (case string_find bufferStr pattern pos of
        None \<Rightarrow> Some addresses
      | Some found \<Rightarrow>
          find_occurrences bufferStr pattern addr unit (found + length pattern)
            (addresses @ [addr + found * unit]))"

fun FindTextPatternUTF16_walk :: "process \<Rightarrow> region list \<Rightarrow> wstring \<Rightarrow> nat list \<Rightarrow> nat list option" where
  "FindTextPatternUTF16_walk p [] pattern addresses = Some addresses"
| "FindTextPatternUTF16_walk p (r # rs) pattern addresses =
     (if r_state r = MEM_COMMIT \<and> (r_protect r = PAGE_READWRITE \<or> r_protect r = PAGE_EXECUTE_READWRITE)
      then (case ReadProcessMemory p r of
              None \<Rightarrow> FindTextPatternUTF16_walk p rs pattern addresses
            | Some buffer \<Rightarrow>
                (case find_occurrences (bytes_wstring buffer) pattern (r_base r) 2 0 addresses of
                   None \<Rightarrow> None
                 | Some addresses' \<Rightarrow> FindTextPatternUTF16_walk p rs pattern addresses'))
      else FindTextPatternUTF16_walk p rs pattern addresses)"

definition FindTextPatternUTF16 :: "process \<Rightarrow> wstring \<Rightarrow> nat list option" where
  "FindTextPatternUTF16 p pattern = FindTextPatternUTF16_walk p (address_space p) pattern []"

fun FindTextPatternASCII_walk :: "process \<Rightarrow> region list \<Rightarrow> cstring \<Rightarrow> nat list \<Rightarrow> nat list option" where
  "FindTextPatternASCII_walk p [] pattern addresses = Some addresses"
| "FindTextPatternASCII_walk p (r # rs) pattern addresses =
     (if r_state r = MEM_COMMIT \<and> (r_protect r = PAGE_READWRITE \<or> r_protect r = PAGE_EXECUTE_READWRITE)
      then (case ReadProcessMemory p r of
              None \<Rightarrow> FindTextPatternASCII_walk p rs pattern addresses
            | Some buffer \<Rightarrow>
                (case find_occurrences buffer pattern (r_base r) 1 0 addresses of
                   None \<Rightarrow> None
                 | Some addresses' \<Rightarrow> FindTextPatternASCII_walk p rs pattern addresses'))
      else FindTextPatternASCII_walk p rs pattern addresses)"

definition FindTextPatternASCII :: "process \<Rightarrow> cstring \<Rightarrow> nat list option" where
  "FindTextPatternASCII p pattern = FindTextPatternASCII_walk p (address_space p) pattern []"

text \<open>
  The two inner loops of \<open>InjectTranslations\<close> for one translation pair: every address
  found is patched, and an item is appended to \<open>injected\<close> for each patch that
  returns true.
\<close>

record injected_item =
  i_address :: nat
  i_original :: cstring
  i_translated :: cstring
  i_encoding :: string

fun inject_UTF16 ::
  "nat list \<Rightarrow> cstring \<Rightarrow> cstring \<Rightarrow> wstring \<Rightarrow> wstring \<Rightarrow> process \<Rightarrow> injected_item list \<Rightarrow>
   abort + (process \<times> injected_item list)" where
  "inject_UTF16 [] originalUtf8 translatedUtf8 originalW translatedW p injected = Inr (p, injected)"
| "inject_UTF16 (addr # addrs) originalUtf8 translatedUtf8 originalW translatedW p injected =
     (case ReplaceTextInMemory p addr originalW translatedW of
        Inl a \<Rightarrow> Inl a
      | Inr (replaced, p') \<Rightarrow>
          inject_UTF16 addrs originalUtf8 translatedUtf8 originalW translatedW p'
            (if replaced
             then injected @ [\<lparr>i_address = addr, i_original = originalUtf8,
                               i_translated = translatedUtf8, i_encoding = ''UTF-16''\<rparr>]
             else injected))"

fun inject_ASCII ::
  "nat list \<Rightarrow> cstring \<Rightarrow> cstring \<Rightarrow> process \<Rightarrow> injected_item list \<Rightarrow>
   abort + (process \<times> injected_item list)" where
  "inject_ASCII [] originalUtf8 translatedUtf8 p injected = Inr (p, injected)"
| "inject_ASCII (addr # addrs) originalUtf8 translatedUtf8 p injected =
     (case ReplaceTextInMemoryASCII p addr originalUtf8 translatedUtf8 of
        Inl a \<Rightarrow> Inl a
      | Inr (replaced, p') \<Rightarrow>
          inject_ASCII addrs originalUtf8 translatedUtf8 p'
            (if replaced
             then injected @ [\<lparr>i_address = addr, i_original = originalUtf8,
                               i_translated = translatedUtf8, i_encoding = ''ASCII''\<rparr>]
             else injected))"

section \<open>memory\_utils.cc\<close>

text \<open>
  \<open>ComparePattern\<close> walks the mask up to its terminator and reads \<open>*data\<close> and
  \<open>*pattern\<close> only under an \<open>x\<close>; a read beyond the buffer or beyond the pattern is a
  fault.  The loop of \<open>ScanMemory\<close> over one region runs \<open>i\<close> from 0 while
  \<open>i <= bytesRead - pattern.size()\<close>, in 64-bit unsigned arithmetic.
\<close>

fun ComparePattern :: "byte list \<Rightarrow> nat \<Rightarrow> byte list \<Rightarrow> nat \<Rightarrow> cstring \<Rightarrow> fault + bool" where
  "ComparePattern buffer i pattern j [] = Inr True"
| "ComparePattern buffer i pattern j (m # mask_str) =
     (if m = 0x78 then
        (if i < length buffer \<and> j < length pattern then
           (if buffer ! i \<noteq> pattern ! j then Inr False
            else ComparePattern buffer (i + 1) pattern (j + 1) mask_str)
         else Inl OutOfBounds)
      else ComparePattern buffer (i + 1) pattern (j + 1) mask_str)"

record scan_result =
  s_address :: nat
  s_region :: nat
  s_size :: nat

partial_function (option) ScanMemory_region ::
  "byte list \<Rightarrow> byte list \<Rightarrow> cstring \<Rightarrow> region \<Rightarrow> u64 \<Rightarrow> u64 \<Rightarrow> scan_result list \<Rightarrow>
   (fault + scan_result list) option" where
  "ScanMemory_region buffer pattern mask_str r bound i results =
     (if i \<le> bound then
        (case ComparePattern buffer (unat i) pattern 0 (c_str mask_str) of
           Inl f \<Rightarrow> Some (Inl f)
         | Inr matched \<Rightarrow>
             ScanMemory_region buffer pattern mask_str r bound (i + 1)
               (if matched
                then results @ [\<lparr>s_address = r_base r + unat i, s_region = r_base r, s_size = r_size r\<rparr>]
                else results))
      else Some (Inr results))"

fun ScanMemory_walk ::
  "process \<Rightarrow> region list \<Rightarrow> byte list \<Rightarrow> cstring \<Rightarrow> scan_result list \<Rightarrow> (fault + scan_result list) option" where
  "ScanMemory_walk p [] pattern mask_str results = Some (Inr results)"
| "ScanMemory_walk p (r # rs) pattern mask_str results =
     (if r_state r = MEM_COMMIT \<and>
         r_protect r AND (PAGE_READWRITE OR PAGE_EXECUTE_READWRITE OR PAGE_EXECUTE_READ OR PAGE_READONLY) \<noteq> 0
      then (case ReadProcessMemory p r of
              None \<Rightarrow> ScanMemory_walk p rs pattern mask_str results
            | Some buffer \<Rightarrow>
                (case ScanMemory_region buffer pattern mask_str r
                        (of_nat (length buffer) - of_nat (length pattern)) 0 results of
                   None \<Rightarrow> None
                 | Some (Inl f) \<Rightarrow> Some (Inl f)
                 | Some (Inr results') \<Rightarrow> ScanMemory_walk p rs pattern mask_str results'))
      else ScanMemory_walk p rs pattern mask_str results)"

definition ScanMemory :: "process \<Rightarrow> byte list \<Rightarrow> cstring \<Rightarrow> (fault + scan_result list) option" where
  "ScanMemory p pattern mask_str = ScanMemory_walk p (address_space p) pattern mask_str []"

text \<open>
  A process for the worked examples: one committed read-write region of two bytes,
  \<open>OK\<close>, at address 4096; every range of non-zero size can be re-protected and
  every write goes through.
\<close>

definition example_process :: process where
  "example_process =
     \<lparr>memory = (\<lambda>a. if a = 4096 then 0x4F else if a = 4097 then 0x4B else 0),
      protection = (\<lambda>a. PAGE_READWRITE),
      can_protect = (\<lambda>a n. 0 < n),
      can_write = (\<lambda>a n. True),
      address_space = [\<lparr>r_base = 4096, r_size = 2, r_state = MEM_COMMIT, r_protect = PAGE_READWRITE,
                         r_readable = True\<rparr>]\<rparr>"

chapter \<open>Their properties\<close>

section \<open>Facts about the encodings and the stream\<close>

lemma bytes_u32_bytes: "bytes_u32 (u32_bytes w) = w"
proof -
  have "ucast (ucast w :: byte) OR push_bit 8 (ucast (ucast (drop_bit 8 w) :: byte)) OR
        push_bit 16 (ucast (ucast (drop_bit 16 w) :: byte)) OR
        push_bit 24 (ucast (ucast (drop_bit 24 w) :: byte)) = w"
  proof (rule bit_word_eqI)
    fix n assume "n < LENGTH(32)"
    then consider "n < 8" | "8 \<le> n" "n < 16" | "16 \<le> n" "n < 24" | "24 \<le> n" "n < 32"
      by fastforce
    then show "bit (ucast (ucast w :: byte) OR push_bit 8 (ucast (ucast (drop_bit 8 w) :: byte)) OR
        push_bit 16 (ucast (ucast (drop_bit 16 w) :: byte)) OR
        push_bit 24 (ucast (ucast (drop_bit 24 w) :: byte)) :: u32) n = bit w n"
      by cases (auto simp add: bit_simps)
  qed
  then show ?thesis by (simp add: u32_bytes_def)
qed

lemma length_u32_bytes [simp]: "length (u32_bytes w) = 4"
  by (simp add: u32_bytes_def)

lemma bytes_wstring_wbytes: "bytes_wstring (wbytes ws) = ws"
proof (induction ws)
  case Nil
  then show ?case by (simp add: wbytes_def)
next
  case (Cons c ws)
  have "ucast (ucast c :: byte) OR push_bit 8 (ucast (ucast (drop_bit 8 c) :: byte)) = c"
  proof (rule bit_word_eqI)
    fix n assume "n < LENGTH(16)"
    then consider "n < 8" | "8 \<le> n" "n < 16" by fastforce
    then show "bit (ucast (ucast c :: byte) OR push_bit 8 (ucast (ucast (drop_bit 8 c) :: byte)) :: wchar) n
               = bit c n"
      by cases (auto simp add: bit_simps)
  qed
  with Cons show ?case by (simp add: wbytes_def wchar_bytes_def)
qed

lemma length_wbytes [simp]: "length (wbytes ws) = 2 * length ws"
  by (induction ws) (simp_all add: wbytes_def wchar_bytes_def)

lemma wbytes_append: "wbytes (xs @ ys) = wbytes xs @ wbytes ys"
  by (simp add: wbytes_def)

lemma stream_read_prefix:
  assumes "good s" and "rest s = bs @ r" and "length bs = n"
  shows "stream_read n old s = (bs, s\<lparr>rest := r\<rparr>)"
  using assms by (simp add: stream_read_def)

lemma read_u32_prefix:
  assumes "good s" and "rest s = u32_bytes w @ r"
  shows "read_u32 old s = (w, s\<lparr>rest := r\<rparr>)"
  using stream_read_prefix [OF assms(1) assms(2), of 4 "u32_bytes old"]
  by (simp add: read_u32_def bytes_u32_bytes)

lemma read_wstring_prefix:
  assumes "good s" and "rest s = wbytes ws @ r" and "unat len = length ws"
  shows "read_wstring len s = (ws, s\<lparr>rest := r\<rparr>)"
  using stream_read_prefix [OF assms(1) assms(2), of "unat len * 2" "replicate (unat len * 2) 0"] assms(3)
  by (simp add: read_wstring_def bytes_wstring_wbytes)

section \<open>Facts about the container\<close>

lemma map_of_umap_assign: "map_of (umap_assign k v m) = (map_of m)(k \<mapsto> v)"
  by (induction m) (auto simp: fun_eq_iff)

lemma length_umap_assign: "length (umap_assign k v m) \<le> Suc (length m)"
  by (induction m) auto

lemma umap_assign_fresh: "k \<notin> set (map fst m) \<Longrightarrow> umap_assign k v m = m @ [(k, v)]"
  by (induction m) auto

lemma keys_umap_assign:
  "map fst (umap_assign k v m) = (if k \<in> set (map fst m) then map fst m else map fst m @ [k])"
proof (induction m)
  case Nil
  then show ?case by simp
next
  case (Cons e m)
  obtain a b where e: "e = (a, b)" by (cases e)
  show ?case
  proof (cases "a = k")
    case True
    then show ?thesis by (simp add: e)
  next
    case False
    with Cons show ?thesis by (simp add: e)
  qed
qed

lemma distinct_umap_assign: "distinct (map fst m) \<Longrightarrow> distinct (map fst (umap_assign k v m))"
  by (simp add: keys_umap_assign)

section \<open>Loading a cache file with a foreign header\<close>

text \<open>
  C5.  A cache file whose magic number is not 0x47535443, or whose version is not 1, is
  not loaded: \<open>LoadFromFile\<close> returns false and the cache object is exactly what it was,
  whatever the uninitialised locals held.  The magic number is the first four bytes of
  the file, the version the next four.
\<close>

theorem LoadFromFile_rejects_foreign_header:
  assumes "files fs path = Some content"
    and "(4 \<le> length content \<and> bytes_u32 (take 4 content) \<noteq> 0x47535443) \<or>
         (8 \<le> length content \<and> bytes_u32 (take 4 (drop 4 content)) \<noteq> 1)"
  shows "LoadFromFile u fs path c = (False, c)"
proof -
  let ?s0 = "\<lparr>rest = content, good = True\<rparr>"
  from assms(2) have l4: "4 \<le> length content" by auto
  then have r1: "read_u32 (u_magic u) ?s0 = (bytes_u32 (take 4 content), ?s0\<lparr>rest := drop 4 content\<rparr>)"
    by (simp add: read_u32_def stream_read_def)
  show ?thesis
  proof (cases "bytes_u32 (take 4 content) \<noteq> 0x47535443")
    case True
    with r1 assms(1) show ?thesis
      by (simp add: LoadFromFile_def GSTC_MAGIC_def split: prod.split)
  next
    case False
    with assms(2) have l8: "8 \<le> length content"
      and v: "bytes_u32 (take 4 (drop 4 content)) \<noteq> 1" by auto
    from l8 have r2: "read_u32 (u_version u) (?s0\<lparr>rest := drop 4 content\<rparr>)
        = (bytes_u32 (take 4 (drop 4 content)), ?s0\<lparr>rest := drop 4 (drop 4 content)\<rparr>)"
      by (simp add: read_u32_def stream_read_def)
    from r1 r2 v assms(1) show ?thesis
      by (simp add: LoadFromFile_def split: prod.split)
  qed
qed

text \<open>
  The theorem at the file of three entries (OK, No, Hi) whose first byte has been
  overwritten with 0, read into a fresh cache of capacity 10000.
\<close>

theorem LoadFromFile_rejects_foreign_header_witness:
  "files \<lparr>files = [[0x61] \<mapsto> (cache_file_bytes [([0x4F, 0x4B], [0x53, 0xEC]), ([0x4E, 0x6F], [0x4E, 0x6F]), ([0x48, 0x69], [])])[0 := 0]],
           can_create = (\<lambda>p. True)\<rparr> [0x61]
     = Some ((cache_file_bytes [([0x4F, 0x4B], [0x53, 0xEC]), ([0x4E, 0x6F], [0x4E, 0x6F]), ([0x48, 0x69], [])])[0 := 0])
   \<and> 4 \<le> length ((cache_file_bytes [([0x4F, 0x4B], [0x53, 0xEC]), ([0x4E, 0x6F], [0x4E, 0x6F]), ([0x48, 0x69], [])])[0 := 0])
   \<and> bytes_u32 (take 4 ((cache_file_bytes [([0x4F, 0x4B], [0x53, 0xEC]), ([0x4E, 0x6F], [0x4E, 0x6F]), ([0x48, 0x69], [])])[0 := 0]))
       \<noteq> 0x47535443
   \<and> LoadFromFile \<lparr>u_magic = 0, u_version = 0, u_count = 0, u_origLen = 0, u_transLen = 0\<rparr>
        \<lparr>files = [[0x61] \<mapsto> (cache_file_bytes [([0x4F, 0x4B], [0x53, 0xEC]), ([0x4E, 0x6F], [0x4E, 0x6F]), ([0x48, 0x69], [])])[0 := 0]],
         can_create = (\<lambda>p. True)\<rparr>
        [0x61] (TranslationCache_new 10000) = (False, TranslationCache_new 10000)"
  using LoadFromFile_rejects_foreign_header [of
      "\<lparr>files = [[0x61] \<mapsto> (cache_file_bytes [([0x4F, 0x4B], [0x53, 0xEC]), ([0x4E, 0x6F], [0x4E, 0x6F]), ([0x48, 0x69], [])])[0 := 0]],
        can_create = (\<lambda>p. True)\<rparr>"
      "[0x61]"
      "(cache_file_bytes [([0x4F, 0x4B], [0x53, 0xEC]), ([0x4E, 0x6F], [0x4E, 0x6F]), ([0x48, 0x69], [])])[0 := 0]"
      "\<lparr>u_magic = 0, u_version = 0, u_count = 0, u_origLen = 0, u_transLen = 0\<rparr>"
      "TranslationCache_new 10000"]
  by (simp add: cache_file_bytes_def u32_bytes_def GSTC_MAGIC_def)

section \<open>Saving and loading again\<close>

lemma read_entry:
  assumes "good s" and "rest s = entry_bytes e @ r"
    and "length (fst e) < 2 ^ 32" and "length (snd e) < 2 ^ 32"
  shows "load_entries u (Suc n) s m = load_entries u n (s\<lparr>rest := r\<rparr>) (umap_assign (fst e) (snd e) m)"
proof -
  let ?ol = "of_nat (length (fst e)) :: u32" and ?tl = "of_nat (length (snd e)) :: u32"
  have ol: "unat ?ol = length (fst e)" and tl: "unat ?tl = length (snd e)"
    using assms(3,4) by (simp_all add: of_nat_inverse)
  have r0: "rest s = u32_bytes ?ol @ (wbytes (fst e) @ u32_bytes ?tl @ wbytes (snd e) @ r)"
    using assms(2) ol tl by (simp add: entry_bytes_def Let_def)
  have 1: "read_u32 (u_origLen u) s = (?ol, s\<lparr>rest := wbytes (fst e) @ u32_bytes ?tl @ wbytes (snd e) @ r\<rparr>)"
    by (rule read_u32_prefix [OF assms(1) r0])
  have 2: "read_wstring ?ol (s\<lparr>rest := wbytes (fst e) @ u32_bytes ?tl @ wbytes (snd e) @ r\<rparr>)
      = (fst e, s\<lparr>rest := u32_bytes ?tl @ wbytes (snd e) @ r\<rparr>)"
    using read_wstring_prefix [of "s\<lparr>rest := wbytes (fst e) @ u32_bytes ?tl @ wbytes (snd e) @ r\<rparr>"
        "fst e" "u32_bytes ?tl @ wbytes (snd e) @ r" ?ol] assms(1) ol by simp
  have 3: "read_u32 (u_transLen u) (s\<lparr>rest := u32_bytes ?tl @ wbytes (snd e) @ r\<rparr>)
      = (?tl, s\<lparr>rest := wbytes (snd e) @ r\<rparr>)"
    using read_u32_prefix [of "s\<lparr>rest := u32_bytes ?tl @ wbytes (snd e) @ r\<rparr>" ?tl "wbytes (snd e) @ r"]
      assms(1) by simp
  have 4: "read_wstring ?tl (s\<lparr>rest := wbytes (snd e) @ r\<rparr>) = (snd e, s\<lparr>rest := r\<rparr>)"
    using read_wstring_prefix [of "s\<lparr>rest := wbytes (snd e) @ r\<rparr>" "snd e" r ?tl] assms(1) tl by simp
  show ?thesis using assms(1) by (simp add: 1 2 3 4)
qed

lemma load_entries_encoded:
  assumes "good s" and "rest s = concat (map entry_bytes es) @ r"
    and "\<forall>e\<in>set es. length (fst e) < 2 ^ 32 \<and> length (snd e) < 2 ^ 32"
  shows "load_entries u (length es) s m = store_all es m"
  using assms
proof (induction es arbitrary: s m)
  case Nil
  then show ?case by (simp add: store_all_def)
next
  case (Cons e es)
  from Cons.prems have r: "rest s = entry_bytes e @ (concat (map entry_bytes es) @ r)" by simp
  from Cons.prems have b: "length (fst e) < 2 ^ 32" "length (snd e) < 2 ^ 32" by simp_all
  have "load_entries u (Suc (length es)) s m
      = load_entries u (length es) (s\<lparr>rest := concat (map entry_bytes es) @ r\<rparr>) (umap_assign (fst e) (snd e) m)"
    by (rule read_entry [OF Cons.prems(1) r b])
  also have "\<dots> = store_all es (umap_assign (fst e) (snd e) m)"
    using Cons.prems by (intro Cons.IH) simp_all
  finally show ?case by (simp add: store_all_def)
qed

lemma map_of_store_all:
  "distinct (map fst es) \<Longrightarrow> map_of (store_all es m) = map_of m ++ map_of es"
proof (induction es arbitrary: m)
  case Nil
  then show ?case by (simp add: store_all_def)
next
  case (Cons e es)
  then have fresh: "fst e \<notin> dom (map_of es)" by (auto simp: dom_map_of_conv_image_fst)
  have "map_of (store_all (e # es) m) = map_of (store_all es (umap_assign (fst e) (snd e) m))"
    by (simp add: store_all_def)
  also have "\<dots> = (map_of m)(fst e \<mapsto> snd e) ++ map_of es"
    using Cons by (simp add: map_of_umap_assign)
  also have "\<dots> = map_of m ++ map_of (e # es)"
    using fresh by (cases e) (simp add: map_add_upd_left)
  finally show ?case .
qed

text \<open>
  C6 (as amended).  For a cache with fewer than \<open>2^32\<close> entries, each string shorter
  than \<open>2^32\<close> code units (the widths of the count and length fields of the file), and
  a path that can be opened for writing: \<open>SaveToFile\<close> returns true, and
  \<open>LoadFromFile\<close> on the same path, into any cache object, returns true and leaves
  there the same key-to-value mapping as the one saved.
\<close>

theorem SaveToFile_LoadFromFile_roundtrip:
  assumes "can_create fs path"
    and "distinct (map fst (m_cache c))"
    and "length (m_cache c) < 2 ^ 32"
    and "\<forall>e\<in>set (m_cache c). length (fst e) < 2 ^ 32 \<and> length (snd e) < 2 ^ 32"
  shows "fst (SaveToFile fs path c) \<and>
         (case LoadFromFile u (snd (SaveToFile fs path c)) path c' of
            (loaded, c'') \<Rightarrow> loaded \<and> map_of (m_cache c'') = map_of (m_cache c))"
proof -
  let ?m = "m_cache c"
  let ?s0 = "\<lparr>rest = cache_file_bytes ?m, good = True\<rparr>"
  have save: "SaveToFile fs path c = (True, fs\<lparr>files := (files fs)(path \<mapsto> cache_file_bytes ?m)\<rparr>)"
    using assms(1) by (simp add: SaveToFile_def)
  have n: "unat (of_nat (length ?m) :: u32) = length ?m"
    using assms(3) by (simp add: of_nat_inverse)
  have 1: "read_u32 (u_magic u) ?s0
      = (GSTC_MAGIC, \<lparr>rest = u32_bytes 1 @ u32_bytes (of_nat (length ?m)) @ concat (map entry_bytes ?m), good = True\<rparr>)"
    using read_u32_prefix [of ?s0 GSTC_MAGIC "u32_bytes 1 @ u32_bytes (of_nat (length ?m)) @ concat (map entry_bytes ?m)"]
    by (simp add: cache_file_bytes_def)
  have 2: "read_u32 (u_version u) \<lparr>rest = u32_bytes 1 @ u32_bytes (of_nat (length ?m)) @ concat (map entry_bytes ?m), good = True\<rparr>
      = (1, \<lparr>rest = u32_bytes (of_nat (length ?m)) @ concat (map entry_bytes ?m), good = True\<rparr>)"
    using read_u32_prefix [of "\<lparr>rest = u32_bytes 1 @ u32_bytes (of_nat (length ?m)) @ concat (map entry_bytes ?m), good = True\<rparr>"
        1 "u32_bytes (of_nat (length ?m)) @ concat (map entry_bytes ?m)"] by simp
  have 3: "read_u32 (u_count u) \<lparr>rest = u32_bytes (of_nat (length ?m)) @ concat (map entry_bytes ?m), good = True\<rparr>
      = (of_nat (length ?m), \<lparr>rest = concat (map entry_bytes ?m), good = True\<rparr>)"
    using read_u32_prefix [of "\<lparr>rest = u32_bytes (of_nat (length ?m)) @ concat (map entry_bytes ?m), good = True\<rparr>"
        "of_nat (length ?m)" "concat (map entry_bytes ?m)"] by simp
  have 4: "load_entries u (length ?m) \<lparr>rest = concat (map entry_bytes ?m), good = True\<rparr> [] = store_all ?m []"
    using load_entries_encoded [of "\<lparr>rest = concat (map entry_bytes ?m), good = True\<rparr>" ?m "[]" u "[]"] assms(4)
    by simp
  have load: "LoadFromFile u (fs\<lparr>files := (files fs)(path \<mapsto> cache_file_bytes ?m)\<rparr>) path c'
      = (True, c'\<lparr>m_cache := store_all ?m []\<rparr>)"
    by (simp add: LoadFromFile_def 1 2 3 4 n)
  show ?thesis
    using assms(2) by (simp add: save load map_of_store_all)
qed

theorem SaveToFile_LoadFromFile_roundtrip_witness:
  "can_create \<lparr>files = Map.empty, can_create = (\<lambda>p. True)\<rparr> [0x61]
   \<and> distinct (map fst [([0x4F, 0x4B], [0x53, 0xEC]), ([0x4E, 0x6F], [0x4E, 0x6F]), ([0x48, 0x69 :: wchar], [] :: wstring)])
   \<and> fst (SaveToFile \<lparr>files = Map.empty, can_create = (\<lambda>p. True)\<rparr> [0x61]
          \<lparr>m_cache = [([0x4F, 0x4B], [0x53, 0xEC]), ([0x4E, 0x6F], [0x4E, 0x6F]), ([0x48, 0x69], [])],
           m_maxSize = 10000, m_hits = 0, m_misses = 0\<rparr>)
   \<and> (case LoadFromFile \<lparr>u_magic = 7, u_version = 7, u_count = 7, u_origLen = 7, u_transLen = 7\<rparr>
          (snd (SaveToFile \<lparr>files = Map.empty, can_create = (\<lambda>p. True)\<rparr> [0x61]
            \<lparr>m_cache = [([0x4F, 0x4B], [0x53, 0xEC]), ([0x4E, 0x6F], [0x4E, 0x6F]), ([0x48, 0x69], [])],
             m_maxSize = 10000, m_hits = 0, m_misses = 0\<rparr>))
          [0x61] (TranslationCache_new 5) of
        (loaded, c'') \<Rightarrow> loaded \<and> map_of (m_cache c'')
           = map_of [([0x4F, 0x4B], [0x53, 0xEC]), ([0x4E, 0x6F], [0x4E, 0x6F]), ([0x48, 0x69], [])])"
  using SaveToFile_LoadFromFile_roundtrip [of
      "\<lparr>files = Map.empty, can_create = (\<lambda>p. True)\<rparr>" "[0x61]"
      "\<lparr>m_cache = [([0x4F, 0x4B], [0x53, 0xEC]), ([0x4E, 0x6F], [0x4E, 0x6F]), ([0x48, 0x69], [])],
        m_maxSize = 10000, m_hits = 0, m_misses = 0\<rparr>"
      "\<lparr>u_magic = 7, u_version = 7, u_count = 7, u_origLen = 7, u_transLen = 7\<rparr>"
      "TranslationCache_new 5"]
  by simp

text \<open>
  The claim without the bound: a key of \<open>2^32\<close> units is saved with length field 0
  and no units, and comes back as the empty key.
\<close>

theorem SaveToFile_LoadFromFile_long_key_counterexample:
  "LoadFromFile \<lparr>u_magic = 0, u_version = 0, u_count = 0, u_origLen = 0, u_transLen = 0\<rparr>
     (snd (SaveToFile \<lparr>files = Map.empty, can_create = (\<lambda>p. True)\<rparr> [0x61]
            \<lparr>m_cache = [(replicate (2 ^ 32) 0x41, [0x42])], m_maxSize = 10000, m_hits = 0, m_misses = 0\<rparr>))
     [0x61]
     \<lparr>m_cache = [(replicate (2 ^ 32) 0x41, [0x42])], m_maxSize = 10000, m_hits = 0, m_misses = 0\<rparr>
   = (True, \<lparr>m_cache = [([], [0x42])], m_maxSize = 10000, m_hits = 0, m_misses = 0\<rparr>)
   \<and> map_of [([] :: wstring, [0x42 :: wchar])] [] \<noteq> map_of [(replicate (2 ^ 32) 0x41, [0x42])] []"
  by (simp add: SaveToFile_def LoadFromFile_def cache_file_bytes_def entry_bytes_def GSTC_MAGIC_def
      u32_bytes_def read_u32_def read_wstring_def stream_read_def wbytes_def wchar_bytes_def)

section \<open>The size bound of the cache\<close>

lemma Put_size:
  assumes "1 \<le> m_maxSize c" and "Size c \<le> m_maxSize c"
  shows "Size (Put original translated c) \<le> m_maxSize c" and "m_maxSize (Put original translated c) = m_maxSize c"
proof -
  show "m_maxSize (Put original translated c) = m_maxSize c"
    by (simp add: Put_def EvictOldest_def Let_def)
  show "Size (Put original translated c) \<le> m_maxSize c"
  proof (cases "length (m_cache c) \<ge> m_maxSize c")
    case True
    with assms have ne: "m_cache c \<noteq> []" by auto
    have "length (umap_assign original translated (tl (m_cache c))) \<le> Suc (length (tl (m_cache c)))"
      by (rule length_umap_assign)
    also have "\<dots> = length (m_cache c)" using ne by simp
    finally show ?thesis using True ne assms(2) by (simp add: Put_def EvictOldest_def Size_def)
  next
    case False
    have "length (umap_assign original translated (m_cache c)) \<le> Suc (length (m_cache c))"
      by (rule length_umap_assign)
    with False show ?thesis by (simp add: Put_def Size_def)
  qed
qed

lemma apply_op_size:
  assumes "1 \<le> m_maxSize c" and "Size c \<le> m_maxSize c"
  shows "Size (apply_op x c) \<le> m_maxSize c \<and> m_maxSize (apply_op x c) = m_maxSize c"
proof (cases x)
  case (Op_Put k v)
  with Put_size [OF assms] show ?thesis by simp
next
  case (Op_Get k)
  with assms(2) show ?thesis by (simp add: Get_def Size_def split: option.split)
next
  case (Op_Remove k)
  have "length (umap_erase k (m_cache c)) \<le> length (m_cache c)"
    by (simp add: umap_erase_def)
  with Op_Remove assms(2) show ?thesis by (simp add: Remove_def Size_def)
next
  case Op_Clear
  then show ?thesis by (simp add: Clear_def Size_def)
qed

lemma cache_trace_size:
  assumes "1 \<le> m_maxSize c" and "Size c \<le> m_maxSize c"
  shows "\<forall>c' \<in> set (cache_trace xs c). Size c' \<le> m_maxSize c"
  using assms
proof (induction xs arbitrary: c)
  case Nil
  then show ?case by simp
next
  case (Cons x xs)
  from apply_op_size [OF Cons.prems, of x]
  have s: "Size (apply_op x c) \<le> m_maxSize c" and m: "m_maxSize (apply_op x c) = m_maxSize c"
    by simp_all
  from Cons.IH [of "apply_op x c"] s m Cons.prems(1)
  have "\<forall>c' \<in> set (cache_trace xs (apply_op x c)). Size c' \<le> m_maxSize c" by simp
  with s show ?case by simp
qed

text \<open>
  C9.  A cache constructed with capacity \<open>max_cache_size \<ge> 1\<close> holds at most that many
  entries after every operation of any sequence of Put, Get, Remove and Clear.  When the
  cache is full and a Put brings a new key, one existing entry (the first in iteration
  order) is dropped before the new one is stored, and the cache stays full.
\<close>

theorem cache_size_bounded:
  assumes "1 \<le> maxSize"
  shows "(\<forall>c \<in> set (cache_trace ops (TranslationCache_new maxSize)). Size c \<le> maxSize) \<and>
         (\<forall>c original translated.
            m_maxSize c = maxSize \<and> Size c = maxSize \<and> original \<notin> set (map fst (m_cache c)) \<longrightarrow>
            Size (Put original translated c) = maxSize \<and>
            set (m_cache (Put original translated c)) = insert (original, translated) (set (tl (m_cache c))))"
proof
  show "\<forall>c \<in> set (cache_trace ops (TranslationCache_new maxSize)). Size c \<le> maxSize"
    using cache_trace_size [of "TranslationCache_new maxSize" ops] assms
    by (simp add: TranslationCache_new_def Size_def)
next
  show "\<forall>c original translated.
            m_maxSize c = maxSize \<and> Size c = maxSize \<and> original \<notin> set (map fst (m_cache c)) \<longrightarrow>
            Size (Put original translated c) = maxSize \<and>
            set (m_cache (Put original translated c)) = insert (original, translated) (set (tl (m_cache c)))"
  proof (intro allI impI, elim conjE)
    fix c original translated
    assume m: "m_maxSize c = maxSize" and s: "Size c = maxSize"
      and fresh: "original \<notin> set (map fst (m_cache c))"
    from s assms have ne: "m_cache c \<noteq> []" by (auto simp: Size_def)
    from fresh ne have "original \<notin> set (map fst (tl (m_cache c)))"
      by (cases "m_cache c") auto
    then have a: "umap_assign original translated (tl (m_cache c)) = tl (m_cache c) @ [(original, translated)]"
      by (rule umap_assign_fresh)
    have p: "m_cache (Put original translated c) = tl (m_cache c) @ [(original, translated)]"
      using m s ne a by (simp add: Put_def EvictOldest_def Size_def)
    show "Size (Put original translated c) = maxSize \<and>
          set (m_cache (Put original translated c)) = insert (original, translated) (set (tl (m_cache c)))"
      using p s ne assms by (simp add: Size_def)
  qed
qed

theorem cache_size_bounded_witness:
  "(1::nat) \<le> 2 \<and>
   list_all (\<lambda>c. Size c \<le> 2)
     (cache_trace [Op_Put [0x61] [0x62], Op_Put [0x63] [0x64], Op_Get [0x61], Op_Put [0x65] [0x66],
        Op_Remove [0x63], Op_Clear] (TranslationCache_new 2)) \<and>
   m_maxSize (Put [0x63] [0x64] (Put [0x61] [0x62] (TranslationCache_new 2))) = 2 \<and>
   Size (Put [0x63] [0x64] (Put [0x61] [0x62] (TranslationCache_new 2))) = 2 \<and>
   [0x65] \<notin> set (map fst (m_cache (Put [0x63] [0x64] (Put [0x61] [0x62] (TranslationCache_new 2))))) \<and>
   m_cache (Put [0x65] [0x66] (Put [0x63] [0x64] (Put [0x61] [0x62] (TranslationCache_new 2))))
     = [([0x63], [0x64]), ([0x65], [0x66])]"
  using cache_size_bounded [of 2 "[Op_Put [0x61] [0x62], Op_Put [0x63] [0x64], Op_Get [0x61], Op_Put [0x65] [0x66],
        Op_Remove [0x63], Op_Clear]"]
  by (simp add: list_all_iff TranslationCache_new_def Put_def EvictOldest_def Size_def)

section \<open>Failed translations\<close>

lemma ReceiveTranslateResponse_hit:
  "g_pendingResponses s requestId = Some t \<Longrightarrow>
   ReceiveTranslateResponse requestId tt ws s
     = (True, t, s\<lparr>g_pendingResponses := (g_pendingResponses s)(requestId := None)\<rparr>)"
  by (cases ws) simp_all

text \<open>
  C4.  \<open>Translate\<close> on an enabled, initialised pipeline, for a text that is not in the
  cache: when the transport is not connected, or the request cannot be sent
  (\<open>SendTranslateRequest\<close> returns 0), or the wait for the response fails, the result is
  the original text itself, the error counter has grown by one exactly when the
  transport was connected (a send was attempted), and no entry was added to the cache.
\<close>

theorem Translate_failure_returns_original:
  assumes "g_initialized st" and "enabled (g_config st)"
    and "map_of (m_cache (g_globalCache st)) originalText = None"
    and "\<not> IsConnected (ipc st) \<or>
         fst (SendTranslateRequest (write_ok env) originalText (ipc st)) = 0 \<or>
         \<not> fst (ReceiveTranslateResponse (fst (SendTranslateRequest (write_ok env) originalText (ipc st))) []
                 (wakes env) (snd (SendTranslateRequest (write_ok env) originalText (ipc st))))"
  shows "fst (Translate env originalText st) = originalText \<and>
         translationErrors (g_stats (snd (Translate env originalText st)))
           = translationErrors (g_stats st) + (if IsConnected (ipc st) then 1 else 0) \<and>
         m_cache (g_globalCache (snd (Translate env originalText st))) = m_cache (g_globalCache st)"
proof (cases "IsConnected (ipc st)")
  case False
  with assms(1-3) show ?thesis
    by (simp add: Translate_def Get_def Let_def)
next
  case True
  obtain requestId ipc1 where send: "SendTranslateRequest (write_ok env) originalText (ipc st) = (requestId, ipc1)"
    by (cases "SendTranslateRequest (write_ok env) originalText (ipc st)")
  show ?thesis
  proof (cases "requestId > 0")
    case False
    with True assms(1-3) send show ?thesis
      by (simp add: Translate_def Get_def Let_def)
  next
    case pos: True
    then have "requestId \<noteq> 0" by auto
    with assms(4) True send
    have nr: "\<not> fst (ReceiveTranslateResponse requestId [] (wakes env) ipc1)" by simp
    obtain tt ipc2 where recv: "ReceiveTranslateResponse requestId [] (wakes env) ipc1 = (False, tt, ipc2)"
      using nr by (cases "ReceiveTranslateResponse requestId [] (wakes env) ipc1") auto
    with True pos assms(1-3) send show ?thesis
      by (simp add: Translate_def Get_def Let_def)
  qed
qed

theorem Translate_failure_returns_original_witness:
  "\<not> fst (ReceiveTranslateResponse
       (fst (SendTranslateRequest True [0x50, 0x6C, 0x61, 0x79]
          \<lparr>g_hPipe = True, g_connected = True, g_running = True, g_pendingResponses = Map.empty,
           g_nextRequestId = 7, pipe_written = []\<rparr>)) []
       [Woken [(3, [0x58])], TimedOut []]
       (snd (SendTranslateRequest True [0x50, 0x6C, 0x61, 0x79]
          \<lparr>g_hPipe = True, g_connected = True, g_running = True, g_pendingResponses = Map.empty,
           g_nextRequestId = 7, pipe_written = []\<rparr>)))
   \<and> fst (Translate \<lparr>write_ok = True, wakes = [Woken [(3, [0x58])], TimedOut []], startTime = 100, endTime = 2100\<rparr>
         [0x50, 0x6C, 0x61, 0x79]
         \<lparr>g_config = \<lparr>targetLanguage = [0x69, 0x74], sourceLanguage = [0x65, 0x6E], enabled = True,
                      cacheEnabled = True, maxCacheSize = 10000, cachePath = []\<rparr>,
          g_initialized = True,
          g_stats = \<lparr>totalRequests = 0, cacheHits = 0, cacheMisses = 0, translationErrors = 4, averageLatencyMs = 0\<rparr>,
          g_globalCache = TranslationCache_new 10000,
          ipc = \<lparr>g_hPipe = True, g_connected = True, g_running = True, g_pendingResponses = Map.empty,
                 g_nextRequestId = 7, pipe_written = []\<rparr>\<rparr>) = [0x50, 0x6C, 0x61, 0x79]
   \<and> translationErrors (g_stats (snd (Translate
         \<lparr>write_ok = True, wakes = [Woken [(3, [0x58])], TimedOut []], startTime = 100, endTime = 2100\<rparr>
         [0x50, 0x6C, 0x61, 0x79]
         \<lparr>g_config = \<lparr>targetLanguage = [0x69, 0x74], sourceLanguage = [0x65, 0x6E], enabled = True,
                      cacheEnabled = True, maxCacheSize = 10000, cachePath = []\<rparr>,
          g_initialized = True,
          g_stats = \<lparr>totalRequests = 0, cacheHits = 0, cacheMisses = 0, translationErrors = 4, averageLatencyMs = 0\<rparr>,
          g_globalCache = TranslationCache_new 10000,
          ipc = \<lparr>g_hPipe = True, g_connected = True, g_running = True, g_pendingResponses = Map.empty,
                 g_nextRequestId = 7, pipe_written = []\<rparr>\<rparr>))) = 5"
  using Translate_failure_returns_original [of
      "\<lparr>g_config = \<lparr>targetLanguage = [0x69, 0x74], sourceLanguage = [0x65, 0x6E], enabled = True,
                      cacheEnabled = True, maxCacheSize = 10000, cachePath = []\<rparr>,
          g_initialized = True,
          g_stats = \<lparr>totalRequests = 0, cacheHits = 0, cacheMisses = 0, translationErrors = 4, averageLatencyMs = 0\<rparr>,
          g_globalCache = TranslationCache_new 10000,
          ipc = \<lparr>g_hPipe = True, g_connected = True, g_running = True, g_pendingResponses = Map.empty,
                 g_nextRequestId = 7, pipe_written = []\<rparr>\<rparr>"
      "[0x50, 0x6C, 0x61, 0x79]"
      "\<lparr>write_ok = True, wakes = [Woken [(3, [0x58])], TimedOut []], startTime = 100, endTime = 2100\<rparr>"]
  by (simp add: TranslationCache_new_def IsConnected_def SendTranslateRequest_def Let_def store_responses_def)

section \<open>Responses that arrive after the wait has ended\<close>

lemma store_responses_keeps:
  "g_pendingResponses s i \<noteq> None \<Longrightarrow> g_pendingResponses (store_responses rs s) i \<noteq> None"
proof -
  have "m i \<noteq> None \<Longrightarrow> foldl (\<lambda>m r. m(fst r \<mapsto> snd r)) m rs i \<noteq> None" for m :: "u32 \<rightharpoonup> wstring"
    by (induction rs arbitrary: m) simp_all
  then show "g_pendingResponses s i \<noteq> None \<Longrightarrow> g_pendingResponses (store_responses rs s) i \<noteq> None"
    by (simp add: store_responses_def)
qed

lemma ReceiveTranslateResponse_timeout_keeps:
  "\<not> fst (ReceiveTranslateResponse requestId tt ws s) \<Longrightarrow> g_pendingResponses s i \<noteq> None \<Longrightarrow>
   g_pendingResponses (snd (snd (ReceiveTranslateResponse requestId tt ws s))) i \<noteq> None"
proof (induction ws arbitrary: s)
  case Nil
  then show ?case by (simp split: option.splits)
next
  case (Cons w ws)
  show ?case
  proof (cases "g_pendingResponses s requestId")
    case (Some t)
    with Cons.prems show ?thesis by simp
  next
    case None
    show ?thesis
    proof (cases w)
      case (TimedOut rs)
      with None Cons.prems show ?thesis by (simp add: store_responses_keeps)
    next
      case (Woken rs)
      with None Cons.prems Cons.IH [of "store_responses rs s"] show ?thesis
        by (simp add: store_responses_keeps)
    qed
  qed
qed

lemma ReceiveTranslateResponse_other_keeps:
  "other \<noteq> i \<Longrightarrow> g_pendingResponses s i \<noteq> None \<Longrightarrow>
   g_pendingResponses (snd (snd (ReceiveTranslateResponse other tt ws s))) i \<noteq> None"
proof (induction ws arbitrary: s)
  case Nil
  then show ?case by (simp split: option.splits)
next
  case (Cons w ws)
  show ?case
  proof (cases "g_pendingResponses s other")
    case (Some t)
    with Cons.prems show ?thesis by simp
  next
    case None
    show ?thesis
    proof (cases w)
      case (TimedOut rs)
      with None Cons.prems show ?thesis by (simp add: store_responses_keeps)
    next
      case (Woken rs)
      with None Cons.prems Cons.IH [of "store_responses rs s"] show ?thesis
        by (simp add: store_responses_keeps)
    qed
  qed
qed

lemma dispatch_response_message:
  assumes "length reply * 2 < 2 ^ 32"
  shows "dispatch_message (response_message requestId reply @ stale) s
         = Inr (s\<lparr>g_pendingResponses := (g_pendingResponses s)(requestId \<mapsto> reply)\<rparr>)"
proof -
  let ?n = "of_nat (length reply * 2) :: u32"
  have n: "unat ?n = length reply * 2" using assms by (simp add: of_nat_inverse)
  have t: "take 4 (response_message requestId reply @ stale) = u32_bytes TRANSLATE_RESPONSE"
    and i: "take 4 (drop 4 (response_message requestId reply @ stale)) = u32_bytes requestId"
    and l: "take 4 (drop 8 (response_message requestId reply @ stale)) = u32_bytes ?n"
    and d: "drop 12 (response_message requestId reply @ stale) = wbytes reply @ stale"
    by (simp_all add: response_message_def)
  show ?thesis
    unfolding dispatch_message_def t i l d bytes_u32_bytes Let_def n
    by (simp add: bytes_wstring_wbytes response_message_def)
qed

text \<open>
  C7 (as amended).  A wait that ends in failure removes nothing from
  \<open>g_pendingResponses\<close>.  The receive thread stores every well-formed
  \<open>TRANSLATE_RESPONSE\<close> under its request id, whether or not anyone still waits for
  it, and an entry stays in the map through every later wait for another id: only a
  \<open>ReceiveTranslateResponse\<close> for the same id erases it.
\<close>

theorem late_response_stays_pending:
  "(\<not> fst (ReceiveTranslateResponse requestId tt ws s) \<longrightarrow>
      (\<forall>i. g_pendingResponses s i \<noteq> None \<longrightarrow>
           g_pendingResponses (snd (snd (ReceiveTranslateResponse requestId tt ws s))) i \<noteq> None)) \<and>
   (length reply * 2 < 2 ^ 32 \<longrightarrow>
      dispatch_message (response_message requestId reply @ stale) s
        = Inr (s\<lparr>g_pendingResponses := (g_pendingResponses s)(requestId \<mapsto> reply)\<rparr>)) \<and>
   (other \<noteq> requestId \<and> g_pendingResponses s' requestId \<noteq> None \<longrightarrow>
      g_pendingResponses (snd (snd (ReceiveTranslateResponse other tt' ws' s'))) requestId \<noteq> None)"
  using ReceiveTranslateResponse_timeout_keeps [of requestId tt ws s]
    dispatch_response_message [of reply requestId stale s]
    ReceiveTranslateResponse_other_keeps [of other requestId s' tt' ws']
  by blast

theorem late_response_stays_pending_witness:
  "\<not> fst (ReceiveTranslateResponse 7 [] [Woken [(9, [0x41])], TimedOut []]
      \<lparr>g_hPipe = True, g_connected = True, g_running = True, g_pendingResponses = [5 \<mapsto> [0x42]],
       g_nextRequestId = 8, pipe_written = []\<rparr>)
   \<and> g_pendingResponses (snd (snd (ReceiveTranslateResponse 7 [] [Woken [(9, [0x41])], TimedOut []]
      \<lparr>g_hPipe = True, g_connected = True, g_running = True, g_pendingResponses = [5 \<mapsto> [0x42]],
       g_nextRequestId = 8, pipe_written = []\<rparr>))) 5 \<noteq> None
   \<and> length [0x4F, 0x6B :: wchar] * 2 < (2::nat) ^ 32
   \<and> dispatch_message (response_message 7 [0x4F, 0x6B] @ replicate 65520 0)
      \<lparr>g_hPipe = True, g_connected = True, g_running = True, g_pendingResponses = [5 \<mapsto> [0x42]],
       g_nextRequestId = 8, pipe_written = []\<rparr>
     = Inr \<lparr>g_hPipe = True, g_connected = True, g_running = True,
            g_pendingResponses = [5 \<mapsto> [0x42], 7 \<mapsto> [0x4F, 0x6B]],
            g_nextRequestId = 8, pipe_written = []\<rparr>
   \<and> (8::u32) \<noteq> 7
   \<and> g_pendingResponses (snd (snd (ReceiveTranslateResponse 8 [] [TimedOut []]
      \<lparr>g_hPipe = True, g_connected = True, g_running = True,
       g_pendingResponses = [5 \<mapsto> [0x42], 7 \<mapsto> [0x4F, 0x6B]],
       g_nextRequestId = 9, pipe_written = []\<rparr>))) 7 \<noteq> None"
  using late_response_stays_pending [of 7 "[]" "[Woken [(9, [0x41])], TimedOut []]"
     "\<lparr>g_hPipe = True, g_connected = True, g_running = True, g_pendingResponses = [5 \<mapsto> [0x42]],
       g_nextRequestId = 8, pipe_written = []\<rparr>" "[0x4F, 0x6B]" "replicate 65520 0" 8
     "\<lparr>g_hPipe = True, g_connected = True, g_running = True,
       g_pendingResponses = [5 \<mapsto> [0x42], 7 \<mapsto> [0x4F, 0x6B]],
       g_nextRequestId = 9, pipe_written = []\<rparr>" "[]" "[TimedOut []]"]
  by (simp add: store_responses_def)

text \<open>
  The claim as stated: the wait for request 7 times out with nothing pending; the
  response for 7 that the thread reads afterwards is in the map, with no one to take it.
\<close>

theorem late_response_retained_counterexample:
  "ReceiveTranslateResponse 7 [] [TimedOut []]
      \<lparr>g_hPipe = True, g_connected = True, g_running = True, g_pendingResponses = Map.empty,
       g_nextRequestId = 8, pipe_written = []\<rparr>
    = (False, [], \<lparr>g_hPipe = True, g_connected = True, g_running = True, g_pendingResponses = Map.empty,
       g_nextRequestId = 8, pipe_written = []\<rparr>)
  \<and> ReceiveThreadFunc [ReadData (response_message 7 [0x4F, 0x6B])] (replicate 65536 0)
      \<lparr>g_hPipe = True, g_connected = True, g_running = True, g_pendingResponses = Map.empty,
       g_nextRequestId = 8, pipe_written = []\<rparr>
    = Inr \<lparr>g_hPipe = True, g_connected = True, g_running = True, g_pendingResponses = [7 \<mapsto> [0x4F, 0x6B]],
       g_nextRequestId = 8, pipe_written = []\<rparr>"
proof -
  have "dispatch_message (response_message 7 [0x4F, 0x6B] @ replicate 65520 0)
      \<lparr>g_hPipe = True, g_connected = True, g_running = True, g_pendingResponses = Map.empty,
       g_nextRequestId = 8, pipe_written = []\<rparr>
    = Inr \<lparr>g_hPipe = True, g_connected = True, g_running = True, g_pendingResponses = [7 \<mapsto> [0x4F, 0x6B]],
       g_nextRequestId = 8, pipe_written = []\<rparr>"
    using dispatch_response_message [of "[0x4F, 0x6B]" 7 "replicate 65520 0"
       "\<lparr>g_hPipe = True, g_connected = True, g_running = True, g_pendingResponses = Map.empty,
       g_nextRequestId = 8, pipe_written = []\<rparr>"] by simp
  moreover have "length (response_message 7 [0x4F, 0x6B]) = 16"
    by (simp add: response_message_def)
  ultimately show ?thesis
    by (simp add: store_responses_def Let_def)
qed

section \<open>The filters of the detours\<close>

lemma find_first_single: "(find_first [c] s \<noteq> None) = (c \<in> set s)"
  by (induction s) auto

lemma string_find_single: "(string_find s [c] 0 \<noteq> None) = (c \<in> set s)"
  using find_first_single [of c s] by (simp add: string_find_def)

lemma Translate_counts_request:
  assumes "g_initialized st" and "enabled (g_config st)"
  shows "totalRequests (g_stats (snd (Translate env originalText st))) = totalRequests (g_stats st) + 1"
  using assms
  by (simp add: Translate_def Let_def split: prod.split)

lemma Hooked_FText_ToString_requests:
  assumes "g_initialized st" and "enabled (g_config st)" and "Data r = Some data"
  shows "totalRequests (g_stats (snd (Hooked_FText_ToString env (Some r) st)))
         = totalRequests (g_stats st) +
           (if 2 < length (take (Len r) data) \<and>
               string_find (take (Len r) data) (wide_of ''::'') 0 = None \<and>
               string_find (take (Len r) data) (wide_of ''//'') 0 = None then 1 else 0)"
proof (cases "2 < length (take (Len r) data) \<and>
               string_find (take (Len r) data) (wide_of ''::'') 0 = None \<and>
               string_find (take (Len r) data) (wide_of ''//'') 0 = None")
  case False
  with assms(3) show ?thesis
    by (auto simp add: Hooked_FText_ToString_def Let_def)
next
  case True
  then have pos: "Len r > 0" by auto
  obtain translated st' where tr: "Translate env (take (Len r) data) st = (translated, st')"
    by (cases "Translate env (take (Len r) data) st")
  from Translate_counts_request [OF assms(1,2), of env "take (Len r) data"] tr
  have cnt: "totalRequests (g_stats st') = totalRequests (g_stats st) + 1" by simp
  from True pos assms(3) tr cnt show ?thesis
    by (simp add: Hooked_FText_ToString_def Let_def split: option.split)
qed

lemma Hook_mono_string_new_filter:
  assumes "g_TranslationEnabled st" and "g_Initialized st"
  shows "Hook_mono_string_new env (Some chars) st =
         (if translatable chars then
            (case MultiByteToWideChar env chars of
               None \<Rightarrow> (Original_mono_string_new (Some chars), st\<lparr>g_StringCount := g_StringCount st + 1\<rparr>)
             | Some wtext \<Rightarrow>
                 cache_or_request env wtext (Original_mono_string_new (Some chars))
                   (st\<lparr>g_StringCount := g_StringCount st + 1\<rparr>))
          else (Original_mono_string_new (Some chars), st\<lparr>g_StringCount := g_StringCount st + 1\<rparr>))"
  using assms by (auto simp add: Hook_mono_string_new_def translatable_def Let_def)

lemma Hook_mono_string_new_utf16_filter:
  assumes "g_TranslationEnabled st" and "g_Initialized st"
  shows "Hook_mono_string_new_utf16 env (Some units) (int (length units)) st =
         (if translatable units then
            cache_or_request env units (Original_mono_string_new_utf16 (Some units) (int (length units))) st
          else (Original_mono_string_new_utf16 (Some units) (int (length units)), st))"
  using assms string_find_single [of units]
  by (auto simp add: Hook_mono_string_new_utf16_def translatable_def Let_def)

text \<open>
  C3 (as amended).  With translation enabled and the module initialised, the two Mono
  detours call through unchanged on every string the filter of the specification
  rejects and hand every other string to the cache-and-request block
  (\<open>mono_string_new\<close> after converting it to UTF-16, calling through when the conversion
  fails).  The Unreal \<open>FText::ToString\<close> detour has a filter of its own: on an enabled,
  initialised pipeline it calls \<open>Translate\<close> (counted in \<open>totalRequests\<close>) exactly
  when the string is longer than 2 units and holds neither \<open>::\<close> nor \<open>//\<close>.
\<close>

theorem detour_filters:
  "(g_TranslationEnabled st \<and> g_Initialized st \<longrightarrow>
      Hook_mono_string_new env (Some chars) st =
        (if translatable chars then
           (case MultiByteToWideChar env chars of
              None \<Rightarrow> (Original_mono_string_new (Some chars), st\<lparr>g_StringCount := g_StringCount st + 1\<rparr>)
            | Some wtext \<Rightarrow>
                cache_or_request env wtext (Original_mono_string_new (Some chars))
                  (st\<lparr>g_StringCount := g_StringCount st + 1\<rparr>))
         else (Original_mono_string_new (Some chars), st\<lparr>g_StringCount := g_StringCount st + 1\<rparr>))) \<and>
   (g_TranslationEnabled st \<and> g_Initialized st \<longrightarrow>
      Hook_mono_string_new_utf16 env (Some units) (int (length units)) st =
        (if translatable units then
           cache_or_request env units (Original_mono_string_new_utf16 (Some units) (int (length units))) st
         else (Original_mono_string_new_utf16 (Some units) (int (length units)), st))) \<and>
   (g_initialized t \<and> enabled (g_config t) \<and> Data r = Some data \<longrightarrow>
      totalRequests (g_stats (snd (Hooked_FText_ToString tenv (Some r) t)))
        = totalRequests (g_stats t) +
          (if 2 < length (take (Len r) data) \<and>
              string_find (take (Len r) data) (wide_of ''::'') 0 = None \<and>
              string_find (take (Len r) data) (wide_of ''//'') 0 = None then 1 else 0))"
  using Hook_mono_string_new_filter [of st env chars]
    Hook_mono_string_new_utf16_filter [of st env units]
    Hooked_FText_ToString_requests [of t r data tenv]
  by blast

theorem detour_filters_witness:
  "g_TranslationEnabled example_unity \<and> g_Initialized example_unity \<and>
   translatable (bytes_of ''Player'') \<and>
   Hook_mono_string_new (example_unity_env []) (Some (bytes_of ''Player'')) example_unity
     = (Original_mono_string_new_utf16 (Some (wide_of ''Giocatore'')) 9,
        example_unity\<lparr>g_StringCount := 1\<rparr>) \<and>
   \<not> translatable (wide_of ''a/b'') \<and>
   Hook_mono_string_new_utf16 (example_unity_env []) (Some (wide_of ''a/b'')) 3 example_unity
     = (Original_mono_string_new_utf16 (Some (wide_of ''a/b'')) 3, example_unity) \<and>
   g_initialized example_translator \<and> enabled (g_config example_translator) \<and>
   totalRequests (g_stats (snd (Hooked_FText_ToString \<lparr>write_ok = True, wakes = [], startTime = 0, endTime = 0\<rparr>
       (Some \<lparr>Data = Some (wide_of ''Play::er'' @ [0]), ArrayNum = 9, ArrayMax = 9\<rparr>) example_translator))) = 0 \<and>
   totalRequests (g_stats (snd (Hooked_FText_ToString \<lparr>write_ok = True, wakes = [], startTime = 0, endTime = 0\<rparr>
       (Some \<lparr>Data = Some (wide_of ''Player'' @ [0]), ArrayNum = 7, ArrayMax = 7\<rparr>) example_translator))) = 1"
  using detour_filters [of example_unity "example_unity_env []" "bytes_of ''Player''" "wide_of ''a/b''"
      example_translator "\<lparr>Data = Some (wide_of ''Play::er'' @ [0]), ArrayNum = 9, ArrayMax = 9\<rparr>"
      "wide_of ''Play::er'' @ [0]" "\<lparr>write_ok = True, wakes = [], startTime = 0, endTime = 0\<rparr>"]
    detour_filters [of example_unity "example_unity_env []" "bytes_of ''Player''" "wide_of ''a/b''"
      example_translator "\<lparr>Data = Some (wide_of ''Player'' @ [0]), ArrayNum = 7, ArrayMax = 7\<rparr>"
      "wide_of ''Player'' @ [0]" "\<lparr>write_ok = True, wakes = [], startTime = 0, endTime = 0\<rparr>"]
  by (simp add: example_unity_def example_unity_env_def example_translator_def translatable_def
      bytes_of_def wide_of_def cache_or_request_def int_cast_def Len_def string_find_def)

text \<open>
  The claim as stated fails for the Unreal detour: the specification's filter rejects
  \<open>a/b\<close>, and the detour sends it through \<open>Translate\<close>.
\<close>

theorem Hooked_FText_ToString_slash_counterexample:
  "\<not> translatable (wide_of ''a/b'') \<and>
   totalRequests (g_stats (snd (Hooked_FText_ToString
       \<lparr>write_ok = True, wakes = [], startTime = 0, endTime = 0\<rparr>
       (Some \<lparr>Data = Some (wide_of ''a/b'' @ [0]), ArrayNum = 4, ArrayMax = 4\<rparr>)
       \<lparr>g_config = \<lparr>targetLanguage = wide_of ''it'', sourceLanguage = wide_of ''en'', enabled = True,
                    cacheEnabled = True, maxCacheSize = 10000, cachePath = []\<rparr>,
        g_initialized = True,
        g_stats = \<lparr>totalRequests = 0, cacheHits = 0, cacheMisses = 0, translationErrors = 0, averageLatencyMs = 0\<rparr>,
        g_globalCache = TranslationCache_new 10000,
        ipc = \<lparr>g_hPipe = False, g_connected = False, g_running = False, g_pendingResponses = Map.empty,
               g_nextRequestId = 1, pipe_written = []\<rparr>\<rparr>))) = 1"
  by (simp add: translatable_def wide_of_def Hooked_FText_ToString_def Len_def string_find_def
      Translate_def Get_def TranslationCache_new_def IsConnected_def Let_def)

section \<open>The translation cache of the Unity module\<close>

lemma entries_differ_assign:
  "entries_differ m \<Longrightarrow> v \<noteq> [] \<Longrightarrow> v \<noteq> k \<Longrightarrow> entries_differ (umap_assign k v m)"
  unfolding entries_differ_def by (induction m) auto

lemma entries_differ_lookup:
  "entries_differ m \<Longrightarrow> map_of m k = Some v \<Longrightarrow> v \<noteq> [] \<and> v \<noteq> k"
  unfolding entries_differ_def by (induction m) (auto split: if_splits)

lemma cache_or_request_keeps:
  assumes "entries_differ (g_TranslationCache st)"
  shows "entries_differ (g_TranslationCache (snd (cache_or_request env wtext call_through st)))"
proof (cases "\<exists>cached. map_of (g_TranslationCache st) wtext = Some cached \<and> cached \<noteq> []")
  case True
  then show ?thesis using assms by (auto simp: cache_or_request_def)
next
  case False
  then have miss: "(case map_of (g_TranslationCache st) wtext of
              Some cached \<Rightarrow> if cached \<noteq> [] then Some cached else None
            | None \<Rightarrow> None) = None"
    by (auto split: option.split)
  show ?thesis
  proof (cases "g_IPCClient st")
    case None
    with miss assms show ?thesis by (simp add: cache_or_request_def)
  next
    case (Some client)
    obtain translated client' where rt: "RequestTranslation env wtext client = (translated, client')"
      by (cases "RequestTranslation env wtext client")
    show ?thesis
    proof (cases "IPCClient_IsConnected client \<and> translated \<noteq> [] \<and> translated \<noteq> wtext")
      case True
      with miss Some rt assms show ?thesis
        by (simp add: cache_or_request_def entries_differ_assign)
    next
      case False
      with miss Some rt assms show ?thesis
        by (auto simp add: cache_or_request_def)
    qed
  qed
qed

lemma cache_or_request_hit:
  assumes "entries_differ (g_TranslationCache st)"
    and "map_of (g_TranslationCache st) wtext = Some cached"
  shows "cache_or_request env wtext call_through st
           = (Original_mono_string_new_utf16 (Some cached) (int_cast (length cached)), st)"
    and "cached \<noteq> wtext"
  using entries_differ_lookup [OF assms] assms(2) by (simp_all add: cache_or_request_def)

lemma unity_step_keeps:
  assumes "entries_differ (g_TranslationCache st)"
  shows "entries_differ (g_TranslationCache (unity_step ev st))"
proof (cases ev)
  case (Ev_mono_string_new env arg)
  have "entries_differ (g_TranslationCache (snd (Hook_mono_string_new env arg st)))"
  proof (cases arg)
    case None
    with assms show ?thesis by (simp add: Hook_mono_string_new_def)
  next
    case (Some chars)
    have "entries_differ (g_TranslationCache (snd (cache_or_request env wtext
            (Original_mono_string_new (Some chars)) (st\<lparr>g_StringCount := g_StringCount st + 1\<rparr>))))" for wtext
      using assms by (intro cache_or_request_keeps) simp
    with Some assms show ?thesis
      by (simp add: Hook_mono_string_new_def Let_def split: option.split)
  qed
  with Ev_mono_string_new show ?thesis by simp
next
  case (Ev_mono_string_new_utf16 env arg len)
  have "entries_differ (g_TranslationCache (snd (Hook_mono_string_new_utf16 env arg len st)))"
  proof (cases arg)
    case None
    with assms show ?thesis by (simp add: Hook_mono_string_new_utf16_def)
  next
    case (Some units)
    have "entries_differ (g_TranslationCache (snd (cache_or_request env (take (nat len) units)
            (Original_mono_string_new_utf16 (Some units) len) st)))"
      using assms by (rule cache_or_request_keeps)
    with Some assms show ?thesis
      by (simp add: Hook_mono_string_new_utf16_def Let_def)
  qed
  with Ev_mono_string_new_utf16 show ?thesis by simp
next
  case Ev_ToggleTranslation
  with assms show ?thesis by (simp add: ToggleTranslation_def)
next
  case Ev_ClearCache
  then show ?thesis by (simp add: ClearCache_def entries_differ_def)
next
  case (Ev_TranslatorThread_start x)
  with assms show ?thesis by (simp add: TranslatorThread_start_def)
next
  case (Ev_TranslatorThread_poll x)
  with assms show ?thesis by (simp add: TranslatorThread_poll_def split: option.split)
next
  case Ev_Cleanup
  then show ?thesis by (simp add: Cleanup_def entries_differ_def)
qed

lemma unity_run_keeps:
  "entries_differ (g_TranslationCache st) \<Longrightarrow> entries_differ (g_TranslationCache (unity_run evs st))"
  unfolding unity_run_def
  by (induction evs arbitrary: st) (simp_all add: unity_step_keeps)

text \<open>
  C10.  In every state the Unity module reaches from its load, through any sequence of
  detour calls, \<open>ToggleTranslation\<close>, \<open>ClearCache\<close> and steps of the translator thread,
  every cache entry has a non-empty value different from its key.  So a cache hit in
  either detour creates the string from the cached value, and that value differs from
  the intercepted text (for \<open>mono_string_new\<close>, from its UTF-16 form).
\<close>

theorem unity_cache_entries_differ:
  "entries_differ (g_TranslationCache (unity_run evs unity_loaded)) \<and>
   (g_TranslationEnabled st \<and> g_Initialized st \<and> translatable units \<and>
    entries_differ (g_TranslationCache st) \<and> map_of (g_TranslationCache st) units = Some cached \<longrightarrow>
      Hook_mono_string_new_utf16 env (Some units) (int (length units)) st
        = (Original_mono_string_new_utf16 (Some cached) (int_cast (length cached)), st) \<and>
      cached \<noteq> units) \<and>
   (g_TranslationEnabled st \<and> g_Initialized st \<and> translatable chars \<and>
    MultiByteToWideChar env chars = Some wtext \<and>
    entries_differ (g_TranslationCache st) \<and> map_of (g_TranslationCache st) wtext = Some cached' \<longrightarrow>
      Hook_mono_string_new env (Some chars) st
        = (Original_mono_string_new_utf16 (Some cached') (int_cast (length cached')),
           st\<lparr>g_StringCount := g_StringCount st + 1\<rparr>) \<and>
      cached' \<noteq> wtext)"
proof (intro conjI impI)
  show "entries_differ (g_TranslationCache (unity_run evs unity_loaded))"
    by (rule unity_run_keeps) (simp add: unity_loaded_def entries_differ_def)
next
  assume a: "g_TranslationEnabled st \<and> g_Initialized st \<and> translatable units \<and>
    entries_differ (g_TranslationCache st) \<and> map_of (g_TranslationCache st) units = Some cached"
  then show "Hook_mono_string_new_utf16 env (Some units) (int (length units)) st
        = (Original_mono_string_new_utf16 (Some cached) (int_cast (length cached)), st)"
    using cache_or_request_hit(1) [of st units cached env]
    by (simp add: Hook_mono_string_new_utf16_filter)
  from a show "cached \<noteq> units"
    using cache_or_request_hit(2) [of st units cached] by simp
next
  assume a: "g_TranslationEnabled st \<and> g_Initialized st \<and> translatable chars \<and>
    MultiByteToWideChar env chars = Some wtext \<and>
    entries_differ (g_TranslationCache st) \<and> map_of (g_TranslationCache st) wtext = Some cached'"
  then show "Hook_mono_string_new env (Some chars) st
        = (Original_mono_string_new_utf16 (Some cached') (int_cast (length cached')),
           st\<lparr>g_StringCount := g_StringCount st + 1\<rparr>)"
    using cache_or_request_hit(1) [of "st\<lparr>g_StringCount := g_StringCount st + 1\<rparr>" wtext cached' env]
    by (simp add: Hook_mono_string_new_filter)
  from a show "cached' \<noteq> wtext"
    using cache_or_request_hit(2) [of st wtext cached'] by simp
qed

theorem unity_cache_entries_differ_witness:
  "entries_differ (g_TranslationCache (unity_run
      [Ev_TranslatorThread_start Pipe_opened,
       Ev_mono_string_new (example_unity_env ([0x7B] @ json_translated_key @ bytes_of ''Giocatore'' @ [0x22, 0x7D]))
         (Some (bytes_of ''Player'')),
       Ev_mono_string_new_utf16 (example_unity_env ([0x7B] @ json_translated_key @ bytes_of ''Start'' @ [0x22, 0x7D]))
         (Some (wide_of ''Start'')) 5] unity_loaded)) \<and>
   g_TranslationCache (unity_run
      [Ev_TranslatorThread_start Pipe_opened,
       Ev_mono_string_new (example_unity_env ([0x7B] @ json_translated_key @ bytes_of ''Giocatore'' @ [0x22, 0x7D]))
         (Some (bytes_of ''Player'')),
       Ev_mono_string_new_utf16 (example_unity_env ([0x7B] @ json_translated_key @ bytes_of ''Start'' @ [0x22, 0x7D]))
         (Some (wide_of ''Start'')) 5] unity_loaded) = [(wide_of ''Player'', wide_of ''Giocatore'')] \<and>
   g_TranslationEnabled example_unity \<and> g_Initialized example_unity \<and>
   translatable (wide_of ''Player'') \<and> translatable (bytes_of ''Player'') \<and>
   MultiByteToWideChar (example_unity_env []) (bytes_of ''Player'') = Some (wide_of ''Player'') \<and>
   entries_differ (g_TranslationCache example_unity) \<and>
   map_of (g_TranslationCache example_unity) (wide_of ''Player'') = Some (wide_of ''Giocatore'') \<and>
   Hook_mono_string_new_utf16 (example_unity_env []) (Some (wide_of ''Player'')) 6 example_unity
     = (Original_mono_string_new_utf16 (Some (wide_of ''Giocatore'')) 9, example_unity) \<and>
   Hook_mono_string_new (example_unity_env []) (Some (bytes_of ''Player'')) example_unity
     = (Original_mono_string_new_utf16 (Some (wide_of ''Giocatore'')) 9, example_unity\<lparr>g_StringCount := 1\<rparr>) \<and>
   wide_of ''Giocatore'' \<noteq> wide_of ''Player''"
  using unity_cache_entries_differ [of
      "[Ev_TranslatorThread_start Pipe_opened,
       Ev_mono_string_new (example_unity_env ([0x7B] @ json_translated_key @ bytes_of ''Giocatore'' @ [0x22, 0x7D]))
         (Some (bytes_of ''Player'')),
       Ev_mono_string_new_utf16 (example_unity_env ([0x7B] @ json_translated_key @ bytes_of ''Start'' @ [0x22, 0x7D]))
         (Some (wide_of ''Start'')) 5]"
      example_unity "wide_of ''Player''" "wide_of ''Giocatore''" "example_unity_env []"
      "bytes_of ''Player''" "wide_of ''Player''" "wide_of ''Giocatore''"]
  by (simp add: example_unity_def example_unity_env_def translatable_def entries_differ_def
      bytes_of_def wide_of_def int_cast_def unity_run_def unity_loaded_def TranslatorThread_start_def
      Connect_def Hook_mono_string_new_def Hook_mono_string_new_utf16_def cache_or_request_def
      IPCClient_IsConnected_def RequestTranslation_def json_translated_key_def json_request_head_def
      string_find_def c_str_def Let_def)

section \<open>What a patch writes\<close>

lemma fill_spaces_eq:
  "start \<le> stop \<Longrightarrow> stop \<le> length b \<Longrightarrow>
   fill_spaces b start stop sp = take start b @ replicate (stop - start) sp @ drop stop b"
proof (induction stop)
  case 0
  then show ?case by (simp add: fill_spaces_def)
next
  case (Suc stop)
  show ?case
  proof (cases "start \<le> stop")
    case False
    with Suc.prems have "start = Suc stop" by simp
    then show ?thesis by (simp add: fill_spaces_def)
  next
    case True
    with Suc have ih: "fill_spaces b start stop sp = take start b @ replicate (stop - start) sp @ drop stop b"
      by simp
    have "fill_spaces b start (Suc stop) sp = (fill_spaces b start stop sp)[stop := sp]"
      using True by (simp add: fill_spaces_def)
    also have "\<dots> = take start b @ replicate (stop - start) sp @ (drop stop b)[0 := sp]"
      using True Suc.prems by (simp add: ih list_update_append)
    also have "(drop stop b)[0 := sp] = sp # drop (Suc stop) b"
      using Suc.prems by (cases "drop stop b") (simp_all add: drop_Suc drop_tl)
    also have "take start b @ replicate (stop - start) sp @ sp # drop (Suc stop) b
        = take start b @ replicate (Suc stop - start) sp @ drop (Suc stop) b"
      using True by (simp add: Suc_diff_le replicate_append_same)
    finally show ?thesis .
  qed
qed

lemma patch_buffer:
  assumes "length replacement \<le> n"
  shows "strcpy_s (replicate (n + 1) 0) (n + 1) replacement
           = Some (c_str replacement @ replicate (n + 1 - length (c_str replacement)) 0)"
    and "take n (fill_spaces (c_str replacement @ replicate (n + 1 - length (c_str replacement)) 0)
                   (length replacement) n sp)
           = c_str replacement @ replicate (length replacement - length (c_str replacement)) 0 @
             replicate (n - length replacement) sp"
proof -
  have c: "length (c_str replacement) \<le> length replacement"
    by (simp add: c_str_def length_takeWhile_le)
  with assms show "strcpy_s (replicate (n + 1) 0) (n + 1) replacement
           = Some (c_str replacement @ replicate (n + 1 - length (c_str replacement)) 0)"
    by (simp add: strcpy_s_def replicate_append_same Suc_diff_le)
  let ?c = "c_str replacement"
  let ?b = "?c @ replicate (n + 1 - length ?c) 0"
  have len: "length ?b = n + 1" using c assms by simp
  have "fill_spaces ?b (length replacement) n sp
      = take (length replacement) ?b @ replicate (n - length replacement) sp @ drop n ?b"
    using assms len by (intro fill_spaces_eq) simp_all
  moreover have "take (length replacement) ?b = ?c @ replicate (length replacement - length ?c) 0"
    using c assms by simp
  ultimately show "take n (fill_spaces ?b (length replacement) n sp)
      = ?c @ replicate (length replacement - length ?c) 0 @ replicate (n - length replacement) sp"
    using c assms by simp
qed

lemma c_str_no_zero: "0 \<notin> set s \<Longrightarrow> c_str s = s"
  by (auto simp add: c_str_def)

lemma read_range_written:
  assumes "n \<le> length buffer"
  shows "map (\<lambda>a. if address \<le> a \<and> a < address + n then buffer ! (a - address) else m a)
           [address ..< address + n] = take n buffer"
  using assms by (intro nth_equalityI) simp_all

lemma take_wbytes: "take (n * 2) (wbytes ws) = wbytes (take n ws)"
proof (induction ws arbitrary: n)
  case Nil
  then show ?case by (simp add: wbytes_def)
next
  case (Cons c ws)
  show ?case
  proof (cases n)
    case 0
    then show ?thesis by (simp add: wbytes_def)
  next
    case (Suc k)
    with Cons [of k] show ?thesis by (simp add: wbytes_def wchar_bytes_def)
  qed
qed

lemma ReplaceTextInMemory_written:
  assumes "ReplaceTextInMemory p address original replacement = Inr (True, p')"
  shows "read_range p' address (length original * 2)
         = wbytes (c_str replacement @ replicate (length replacement - length (c_str replacement)) 0 @
                   replicate (length original - length replacement) 0x20)"
proof -
  let ?n = "length original"
  let ?copied = "c_str replacement @ replicate (?n + 1 - length (c_str replacement)) 0"
  let ?buffer = "fill_spaces ?copied (length replacement) ?n 0x20"
  from assms have fits: "length replacement \<le> ?n"
    by (auto simp add: ReplaceTextInMemory_def split: if_splits)
  note pb = patch_buffer(1) [OF fits] patch_buffer(2) [OF fits, where sp = "0x20 :: wchar"]
  from assms fits have mem: "memory p' = (\<lambda>a. if address \<le> a \<and> a < address + ?n * 2
                                  then wbytes ?buffer ! (a - address) else memory p a)"
    unfolding ReplaceTextInMemory_def pb(1)
    by (auto simp add: VirtualProtectEx_def WriteProcessMemory_def Let_def split: if_splits)
  have len: "length ?buffer = ?n + 1"
  proof -
    have "length (c_str replacement) \<le> length replacement"
      by (simp add: c_str_def length_takeWhile_le)
    with fits show ?thesis by (simp add: fill_spaces_eq)
  qed
  have "read_range p' address (?n * 2) = take (?n * 2) (wbytes ?buffer)"
    unfolding read_range_def mem using len by (intro read_range_written) simp
  also have "\<dots> = wbytes (take ?n ?buffer)" by (rule take_wbytes)
  finally show ?thesis by (simp only: pb(2))
qed

lemma ReplaceTextInMemoryASCII_written:
  assumes "ReplaceTextInMemoryASCII p address original replacement = Inr (True, p')"
  shows "read_range p' address (length original)
         = c_str replacement @ replicate (length replacement - length (c_str replacement)) 0 @
           replicate (length original - length replacement) 0x20"
proof -
  let ?n = "length original"
  let ?copied = "c_str replacement @ replicate (?n + 1 - length (c_str replacement)) 0"
  let ?buffer = "fill_spaces ?copied (length replacement) ?n 0x20"
  from assms have fits: "length replacement \<le> ?n"
    by (auto simp add: ReplaceTextInMemoryASCII_def split: if_splits)
  note pb = patch_buffer(1) [OF fits] patch_buffer(2) [OF fits, where sp = "0x20 :: byte"]
  from assms fits have mem: "memory p' = (\<lambda>a. if address \<le> a \<and> a < address + ?n
                                  then ?buffer ! (a - address) else memory p a)"
    unfolding ReplaceTextInMemoryASCII_def pb(1)
    by (auto simp add: VirtualProtectEx_def WriteProcessMemory_def Let_def split: if_splits)
  have len: "length ?buffer = ?n + 1"
  proof -
    have "length (c_str replacement) \<le> length replacement"
      by (simp add: c_str_def length_takeWhile_le)
    with fits show ?thesis by (simp add: fill_spaces_eq)
  qed
  have "read_range p' address ?n = take ?n ?buffer"
    unfolding read_range_def mem using len by (intro read_range_written) simp
  then show ?thesis by (simp only: pb(2))
qed

text \<open>
  C1 (as amended).  When a patch returns true, the target range
  \<open>[address, address + len(original) * unit)\<close> holds the code units of the replacement
  up to its first zero unit, zero units up to the length of the replacement, and
  \<open>len(original) - len(replacement)\<close> spaces.  For a replacement without a zero unit
  that is the replacement followed by the spaces.  Wide and narrow path alike.
\<close>

theorem patch_writes_padded_replacement:
  "(ReplaceTextInMemory p address originalW replacementW = Inr (True, p') \<longrightarrow>
      read_range p' address (length originalW * 2)
        = wbytes (c_str replacementW @ replicate (length replacementW - length (c_str replacementW)) 0 @
                  replicate (length originalW - length replacementW) 0x20) \<and>
      (0 \<notin> set replacementW \<longrightarrow>
         read_range p' address (length originalW * 2)
           = wbytes (replacementW @ replicate (length originalW - length replacementW) 0x20))) \<and>
   (ReplaceTextInMemoryASCII q address' original replacement = Inr (True, q') \<longrightarrow>
      read_range q' address' (length original)
        = c_str replacement @ replicate (length replacement - length (c_str replacement)) 0 @
          replicate (length original - length replacement) 0x20 \<and>
      (0 \<notin> set replacement \<longrightarrow>
         read_range q' address' (length original)
           = replacement @ replicate (length original - length replacement) 0x20))"
proof (intro conjI impI)
  assume a: "ReplaceTextInMemory p address originalW replacementW = Inr (True, p')"
  from ReplaceTextInMemory_written [OF a]
  show w: "read_range p' address (length originalW * 2)
        = wbytes (c_str replacementW @ replicate (length replacementW - length (c_str replacementW)) 0 @
                  replicate (length originalW - length replacementW) 0x20)" .
  assume "0 \<notin> set replacementW"
  with w show "read_range p' address (length originalW * 2)
           = wbytes (replacementW @ replicate (length originalW - length replacementW) 0x20)"
    by (simp add: c_str_no_zero)
next
  assume a: "ReplaceTextInMemoryASCII q address' original replacement = Inr (True, q')"
  from ReplaceTextInMemoryASCII_written [OF a]
  show w: "read_range q' address' (length original)
        = c_str replacement @ replicate (length replacement - length (c_str replacement)) 0 @
          replicate (length original - length replacement) 0x20" .
  assume "0 \<notin> set replacement"
  with w show "read_range q' address' (length original)
           = replacement @ replicate (length original - length replacement) 0x20"
    by (simp add: c_str_no_zero)
qed

theorem patch_writes_padded_replacement_witness:
  "ReplaceTextInMemory example_process 4096 (wide_of ''Hello'') (wide_of ''Via'')
     = Inr (True, snd (projr (ReplaceTextInMemory example_process 4096 (wide_of ''Hello'') (wide_of ''Via''))))
   \<and> 0 \<notin> set (wide_of ''Via'')
   \<and> read_range (snd (projr (ReplaceTextInMemory example_process 4096 (wide_of ''Hello'') (wide_of ''Via''))))
        4096 10 = wbytes (wide_of ''Via  '')
   \<and> ReplaceTextInMemoryASCII example_process 4096 (bytes_of ''OK'') (bytes_of ''OK'')
     = Inr (True, snd (projr (ReplaceTextInMemoryASCII example_process 4096 (bytes_of ''OK'') (bytes_of ''OK''))))
   \<and> 0 \<notin> set (bytes_of ''OK'')
   \<and> read_range (snd (projr (ReplaceTextInMemoryASCII example_process 4096 (bytes_of ''OK'') (bytes_of ''OK''))))
        4096 2 = bytes_of ''OK''"
  using patch_writes_padded_replacement [of example_process 4096 "wide_of ''Hello''" "wide_of ''Via''"
      "snd (projr (ReplaceTextInMemory example_process 4096 (wide_of ''Hello'') (wide_of ''Via'')))"
      example_process 4096 "bytes_of ''OK''" "bytes_of ''OK''"
      "snd (projr (ReplaceTextInMemoryASCII example_process 4096 (bytes_of ''OK'') (bytes_of ''OK'')))"]
  by (simp add: ReplaceTextInMemory_def ReplaceTextInMemoryASCII_def example_process_def
      VirtualProtectEx_def WriteProcessMemory_def strcpy_s_def c_str_def fill_spaces_def
      bytes_of_def wide_of_def Let_def upt_rec read_range_def wbytes_def wchar_bytes_def)

text \<open>
  The claim without the restriction: the narrow replacement \<open>a\\0b\<close> for \<open>xyz\<close> fits
  and the patch returns true, but the third byte written is 0, not \<open>b\<close>.
\<close>

theorem patch_embedded_zero_counterexample:
  "ReplaceTextInMemoryASCII example_process 4096 (bytes_of ''xyz'') [0x61, 0, 0x62]
     = Inr (True, snd (projr (ReplaceTextInMemoryASCII example_process 4096 (bytes_of ''xyz'') [0x61, 0, 0x62])))
   \<and> read_range (snd (projr (ReplaceTextInMemoryASCII example_process 4096 (bytes_of ''xyz'') [0x61, 0, 0x62])))
        4096 3 = [0x61, 0, 0]
   \<and> read_range (snd (projr (ReplaceTextInMemoryASCII example_process 4096 (bytes_of ''xyz'') [0x61, 0, 0x62])))
        4096 3 \<noteq> [0x61, 0, 0x62] @ replicate (3 - 3) 0x20"
  by (simp add: ReplaceTextInMemoryASCII_def example_process_def VirtualProtectEx_def WriteProcessMemory_def
      strcpy_s_def c_str_def fill_spaces_def bytes_of_def read_range_def PAGE_EXECUTE_READWRITE_def
      PAGE_READWRITE_def Let_def upt_rec)

section \<open>Replacements that do not fit\<close>

lemma inject_UTF16_too_long:
  "length translatedW > length originalW \<Longrightarrow>
   inject_UTF16 addrs originalUtf8 translatedUtf8 originalW translatedW p injected = Inr (p, injected)"
  by (induction addrs) (simp_all add: ReplaceTextInMemory_def)

lemma inject_ASCII_too_long:
  "length translatedUtf8 > length originalUtf8 \<Longrightarrow>
   inject_ASCII addrs originalUtf8 translatedUtf8 p injected = Inr (p, injected)"
  by (induction addrs) (simp_all add: ReplaceTextInMemoryASCII_def)

text \<open>
  C2.  A patch call whose replacement has more code units than the original returns
  false at once: the process it leaves is the process it was given, memory and
  protection untouched, and the loops of \<open>InjectTranslations\<close> over the addresses found
  append nothing to the injected list for that pair and encoding.
\<close>

theorem too_long_replacement_rejected:
  "(length translatedW > length originalW \<longrightarrow>
      ReplaceTextInMemory p address originalW translatedW = Inr (False, p) \<and>
      inject_UTF16 addrs originalUtf8 translatedUtf8 originalW translatedW p injected = Inr (p, injected)) \<and>
   (length translatedUtf8 > length originalUtf8 \<longrightarrow>
      ReplaceTextInMemoryASCII p address originalUtf8 translatedUtf8 = Inr (False, p) \<and>
      inject_ASCII addrs originalUtf8 translatedUtf8 p injected = Inr (p, injected))"
  using inject_UTF16_too_long [of originalW translatedW addrs originalUtf8 translatedUtf8 p injected]
    inject_ASCII_too_long [of originalUtf8 translatedUtf8 addrs p injected]
  by (simp add: ReplaceTextInMemory_def ReplaceTextInMemoryASCII_def)

theorem too_long_replacement_rejected_witness:
  "length (wide_of ''Ciao'') > length (wide_of ''Hi'')
   \<and> ReplaceTextInMemory example_process 4096 (wide_of ''Hi'') (wide_of ''Ciao'') = Inr (False, example_process)
   \<and> inject_UTF16 [4096, 8192] (bytes_of ''Hi'') (bytes_of ''Ciao'') (wide_of ''Hi'') (wide_of ''Ciao'')
        example_process [] = Inr (example_process, [])
   \<and> length (bytes_of ''Ciao'') > length (bytes_of ''Hi'')
   \<and> ReplaceTextInMemoryASCII example_process 4096 (bytes_of ''Hi'') (bytes_of ''Ciao'') = Inr (False, example_process)
   \<and> inject_ASCII [4096, 8192] (bytes_of ''Hi'') (bytes_of ''Ciao'') example_process [] = Inr (example_process, [])"
  using too_long_replacement_rejected [of "wide_of ''Hi''" "wide_of ''Ciao''" example_process 4096
      "[4096, 8192]" "bytes_of ''Hi''" "bytes_of ''Ciao''" "[]"]
  by (simp add: bytes_of_def wide_of_def ReplaceTextInMemory_def ReplaceTextInMemoryASCII_def)

section \<open>Scans at the boundaries\<close>

lemma string_find_empty: "pos \<le> length s \<Longrightarrow> string_find s [] pos = Some pos"
  by (cases "drop pos s") (simp_all add: string_find_def)

lemma find_occurrences_empty_aux:
  assumes "find_occurrences bufferStr pattern addr unit pos addresses = Some r"
  shows "pattern = [] \<longrightarrow> pos \<le> length bufferStr \<longrightarrow> False"
proof (rule find_occurrences.raw_induct
    [where P = "\<lambda>b p a u ps ad r. p = [] \<longrightarrow> ps \<le> length b \<longrightarrow> False", OF _ assms])
  fix f :: "'a list \<Rightarrow> 'a list \<Rightarrow> nat \<Rightarrow> nat \<Rightarrow> nat \<Rightarrow> nat list \<Rightarrow> nat list option"
    and b p a u ps ad y
  assume IH: "\<And>b p a u ps ad y. f b p a u ps ad = Some y \<Longrightarrow> p = [] \<longrightarrow> ps \<le> length b \<longrightarrow> False"
    and body: "(case string_find b p ps of
                  None \<Rightarrow> Some ad
                | Some found \<Rightarrow> f b p a u (found + length p) (ad @ [a + found * u])) = Some y"
  show "p = [] \<longrightarrow> ps \<le> length b \<longrightarrow> False"
  proof (intro impI)
    assume e: "p = []" and le: "ps \<le> length b"
    from body e le have step: "f b [] a u ps (ad @ [a + ps * u]) = Some y"
      by (simp add: string_find_empty)
    from IH [OF step] le show False by simp
  qed
qed

lemma find_occurrences_empty: "find_occurrences bufferStr [] addr unit 0 addresses = None"
  using find_occurrences_empty_aux [of bufferStr "[]" addr unit 0 addresses]
  by (cases "find_occurrences bufferStr [] addr unit 0 addresses") auto

lemma ScanMemory_region_empty_needle:
  assumes "n < 2 ^ 64 - 1" and "unat i \<le> n + 1"
  shows "ScanMemory_region buffer [] [] r (of_nat n) i results
         = Some (Inr (results @ map (\<lambda>k. \<lparr>s_address = r_base r + k, s_region = r_base r, s_size = r_size r\<rparr>)
                                    [unat i ..< n + 1]))"
  using assms(2)
proof (induction "n + 1 - unat i" arbitrary: i results)
  case 0
  then have "unat i = n + 1" by simp
  moreover have b: "unat (of_nat n :: u64) = n" using assms(1) by (simp add: of_nat_inverse)
  ultimately have "\<not> i \<le> (of_nat n :: u64)" by (simp add: word_le_nat_alt)
  with \<open>unat i = n + 1\<close> show ?case
    by (subst ScanMemory_region.simps) simp
next
  case (Suc d)
  then have le: "unat i \<le> n" by simp
  have b: "unat (of_nat n :: u64) = n" using assms(1) by (simp add: of_nat_inverse)
  from le b have cond: "i \<le> (of_nat n :: u64)" by (simp add: word_le_nat_alt)
  have nxt: "unat (i + 1) = unat i + 1"
    using le assms(1) by (simp add: unat_add_lem [THEN iffD1])
  have ih: "ScanMemory_region buffer [] [] r (of_nat n) (i + 1)
              (results @ [\<lparr>s_address = r_base r + unat i, s_region = r_base r, s_size = r_size r\<rparr>])
         = Some (Inr ((results @ [\<lparr>s_address = r_base r + unat i, s_region = r_base r, s_size = r_size r\<rparr>]) @
               map (\<lambda>k. \<lparr>s_address = r_base r + k, s_region = r_base r, s_size = r_size r\<rparr>)
                   [unat (i + 1) ..< n + 1]))"
    using Suc.hyps(2) Suc.prems nxt le by (intro Suc.hyps(1)) simp_all
  have "[unat i ..< n + 1] = unat i # [unat (i + 1) ..< n + 1]"
    using le nxt by (simp add: upt_conv_Cons)
  with ih cond show ?case
    by (subst ScanMemory_region.simps) (simp add: c_str_def)
qed

lemma ComparePattern_past_end:
  "length buffer \<le> i \<Longrightarrow> ComparePattern buffer i pattern j m \<noteq> Inr False"
  by (induction m arbitrary: i j) auto

lemma ScanMemory_region_extends:
  assumes "ScanMemory_region buffer pattern mask_str r bound i results = Some (Inr out)"
  shows "\<exists>more. out = results @ more"
proof -
  have "ScanMemory_region buffer pattern mask_str r bound i results = Some y \<Longrightarrow>
        (\<forall>out. y = Inr out \<longrightarrow> (\<exists>more. out = results @ more))" for y
  proof (rule ScanMemory_region.raw_induct
      [where P = "\<lambda>b p m r bd i rs y. \<forall>out. y = Inr out \<longrightarrow> (\<exists>more. out = rs @ more)"])
    fix f :: "byte list \<Rightarrow> byte list \<Rightarrow> cstring \<Rightarrow> region \<Rightarrow> u64 \<Rightarrow> u64 \<Rightarrow> scan_result list \<Rightarrow>
              (fault + scan_result list) option"
      and b p m r bd i rs y
    assume IH: "\<And>b p m r bd i rs y. f b p m r bd i rs = Some y \<Longrightarrow>
                  \<forall>out. y = Inr out \<longrightarrow> (\<exists>more. out = rs @ more)"
      and body: "(if i \<le> bd then
                   (case ComparePattern b (unat i) p 0 (c_str m) of
                      Inl f \<Rightarrow> Some (Inl f)
                    | Inr matched \<Rightarrow>
                        f b p m r bd (i + 1)
                          (if matched
                           then rs @ [\<lparr>s_address = r_base r + unat i, s_region = r_base r, s_size = r_size r\<rparr>]
                           else rs))
                 else Some (Inr rs)) = Some y"
    show "\<forall>out. y = Inr out \<longrightarrow> (\<exists>more. out = rs @ more)"
    proof (cases "i \<le> bd")
      case False
      with body show ?thesis by auto
    next
      case True
      show ?thesis
      proof (cases "ComparePattern b (unat i) p 0 (c_str m)")
        case (Inl e)
        with True body show ?thesis by auto
      next
        case (Inr matched)
        with True body have "f b p m r bd (i + 1)
              (if matched
               then rs @ [\<lparr>s_address = r_base r + unat i, s_region = r_base r, s_size = r_size r\<rparr>]
               else rs) = Some y" by simp
        from IH [OF this] show ?thesis by (auto split: if_splits)
      qed
    qed
  qed
  with assms show ?thesis by blast
qed

lemma ScanMemory_region_long_needle_aux:
  assumes "length buffer \<le> unat bound" and "unat i \<le> length buffer"
  shows "ScanMemory_region buffer pattern mask_str r bound i results \<noteq> Some (Inr [])"
  using assms(2)
proof (induction "length buffer - unat i" arbitrary: i results)
  case 0
  then have at_end: "unat i = length buffer" by simp
  with assms(1) have cond: "i \<le> bound" by (simp add: word_le_nat_alt)
  show ?case
  proof (cases "ComparePattern buffer (unat i) pattern 0 (c_str mask_str)")
    case (Inl e)
    with cond show ?thesis by (subst ScanMemory_region.simps) simp
  next
    case (Inr matched)
    with ComparePattern_past_end [of buffer "unat i" pattern 0 "c_str mask_str"] at_end
    have m: "matched" by auto
    show ?thesis
    proof
      assume "ScanMemory_region buffer pattern mask_str r bound i results = Some (Inr [])"
      with cond Inr m have "ScanMemory_region buffer pattern mask_str r bound (i + 1)
            (results @ [\<lparr>s_address = r_base r + unat i, s_region = r_base r, s_size = r_size r\<rparr>])
          = Some (Inr [])"
        by (subst (asm) ScanMemory_region.simps) simp
      from ScanMemory_region_extends [OF this] show False by simp
    qed
  qed
next
  case (Suc d)
  then have lt: "unat i < length buffer" by simp
  with assms(1) have cond: "i \<le> bound" by (simp add: word_le_nat_alt)
  have "unat bound < 2 ^ 64" using unsigned_less [of bound] by simp
  with lt assms(1) have nxt: "unat (i + 1) = unat i + 1"
    by (simp add: unat_add_lem [THEN iffD1])
  show ?case
  proof (cases "ComparePattern buffer (unat i) pattern 0 (c_str mask_str)")
    case (Inl e)
    with cond show ?thesis by (subst ScanMemory_region.simps) simp
  next
    case (Inr matched)
    show ?thesis
    proof (cases matched)
      case True
      show ?thesis
      proof
        assume "ScanMemory_region buffer pattern mask_str r bound i results = Some (Inr [])"
        with cond Inr True have "ScanMemory_region buffer pattern mask_str r bound (i + 1)
              (results @ [\<lparr>s_address = r_base r + unat i, s_region = r_base r, s_size = r_size r\<rparr>])
            = Some (Inr [])"
          by (subst (asm) ScanMemory_region.simps) simp
        from ScanMemory_region_extends [OF this] show False by simp
      qed
    next
      case False
      have "ScanMemory_region buffer pattern mask_str r bound (i + 1) results \<noteq> Some (Inr [])"
        using Suc.hyps(2) lt nxt by (intro Suc.hyps(1)) simp_all
      with cond Inr False show ?thesis by (subst ScanMemory_region.simps) simp
    qed
  qed
qed

lemma ScanMemory_region_long_needle:
  assumes "length buffer < length pattern" and "length pattern \<le> 2 ^ 64"
  shows "ScanMemory_region buffer pattern mask_str r
           (of_nat (length buffer) - of_nat (length pattern)) 0 []  \<noteq> Some (Inr [])"
proof -
  let ?b = "of_nat (length buffer) - of_nat (length pattern) :: u64"
  have "unat ?b = (length buffer + (2 ^ 64 - length pattern)) mod 2 ^ 64"
  proof -
    have "?b = of_nat (length buffer + (2 ^ 64 - length pattern))"
      using assms(2) by (simp add: of_nat_diff)
    then show ?thesis by (simp only: unat_of_nat) simp
  qed
  also have "\<dots> = length buffer + (2 ^ 64 - length pattern)"
    using assms by simp
  finally have "length buffer \<le> unat ?b" by simp
  then show ?thesis by (rule ScanMemory_region_long_needle_aux) simp
qed

lemma string_find_long_needle:
  "length s < length pattern \<Longrightarrow> string_find s pattern pos = None"
proof -
  have "length s < length pattern \<Longrightarrow> find_first pattern s = None" for s :: "'a list"
    by (induction s) auto
  from this [of "drop pos s"] show "length s < length pattern \<Longrightarrow> string_find s pattern pos = None"
    by (simp add: string_find_def)
qed

lemma find_occurrences_long_needle:
  "length bufferStr < length pattern \<Longrightarrow>
   find_occurrences bufferStr pattern addr unit 0 addresses = Some addresses"
  by (subst find_occurrences.simps) (simp add: string_find_long_needle)

text \<open>
  C8.  What the scanners do at the two boundaries, on every snapshot.  With the empty
  needle the loop of the text scans never advances: the scan does not return.  The byte
  scan with the empty pattern and mask reports every offset of the region, the one past
  its end included.  The byte scan with a pattern longer than the region computes its
  loop bound by unsigned subtraction, so the loop is entered: whatever the mask, the
  scan of the region does not come back with the empty list (it reads beyond the buffer,
  reports matches, or does not return).  The text scans with a needle longer than the
  region find nothing and return.
\<close>

theorem scan_boundary_cases:
  "find_occurrences bufferStr [] addr unit 0 addresses = None \<and>
   (length buffer < 2 ^ 64 - 1 \<longrightarrow>
      ScanMemory_region buffer [] [] r (of_nat (length buffer) - of_nat (length ([] :: byte list))) 0 []
        = Some (Inr (map (\<lambda>k. \<lparr>s_address = r_base r + k, s_region = r_base r, s_size = r_size r\<rparr>)
                         [0 ..< length buffer + 1]))) \<and>
   (length buffer < length pattern \<and> length pattern \<le> 2 ^ 64 \<longrightarrow>
      ScanMemory_region buffer pattern mask_str r (of_nat (length buffer) - of_nat (length pattern)) 0 []
        \<noteq> Some (Inr [])) \<and>
   (length bufferStr < length needle \<longrightarrow>
      find_occurrences bufferStr needle addr unit 0 addresses = Some addresses)"
  using find_occurrences_empty [of bufferStr addr unit addresses]
    ScanMemory_region_empty_needle [of "length buffer" 0 buffer r "[]"]
    ScanMemory_region_long_needle [of buffer pattern mask_str r]
    find_occurrences_long_needle [of bufferStr needle addr unit addresses]
  by simp

text \<open>
  The theorem at the example process and its region \<open>OK\<close>: the empty needle, the pattern
  \<open>OK!\<close> under the mask \<open>xxx\<close>, and the needle \<open>OKAY\<close>.
\<close>

theorem scan_boundary_cases_witness:
  "FindTextPatternUTF16 example_process [] = None \<and>
   FindTextPatternASCII example_process [] = None \<and>
   ScanMemory example_process [] [] =
     Some (Inr [\<lparr>s_address = 4096, s_region = 4096, s_size = 2\<rparr>,
                \<lparr>s_address = 4097, s_region = 4096, s_size = 2\<rparr>,
                \<lparr>s_address = 4098, s_region = 4096, s_size = 2\<rparr>]) \<and>
   length [0x4F, 0x4B :: byte] < length [0x4F, 0x4B, 0x21 :: byte] \<and>
   ScanMemory example_process [0x4F, 0x4B, 0x21] (bytes_of ''xxx'') = Some (Inl OutOfBounds) \<and>
   length [0x4F, 0x4B :: byte] < length (bytes_of ''OKAY'') \<and>
   FindTextPatternASCII example_process (bytes_of ''OKAY'') = Some []"
proof (intro conjI)
  note general = scan_boundary_cases [where bufferStr = "[0x4F, 0x4B :: byte]" and addr = 4096 and unit = 1
      and addresses = "[]" and buffer = "[0x4F, 0x4B]" and pattern = "[0x4F, 0x4B, 0x21]"
      and mask_str = "bytes_of ''xxx''" and needle = "bytes_of ''OKAY''"
      and r = "\<lparr>r_base = 4096, r_size = 2, r_state = MEM_COMMIT, r_protect = PAGE_READWRITE,
                r_readable = True\<rparr>"]
  have buf: "read_range example_process 4096 2 = [0x4F, 0x4B]"
    by (simp add: read_range_def example_process_def upt_rec)
  show "FindTextPatternUTF16 example_process [] = None"
    by (simp add: FindTextPatternUTF16_def example_process_def ReadProcessMemory_def
        find_occurrences_empty MEM_COMMIT_def PAGE_READWRITE_def)
  from general buf show "FindTextPatternASCII example_process [] = None"
    by (simp add: FindTextPatternASCII_def example_process_def ReadProcessMemory_def
        MEM_COMMIT_def PAGE_READWRITE_def)
  show "length [0x4F, 0x4B :: byte] < length [0x4F, 0x4B, 0x21 :: byte]" by simp
  show "length [0x4F, 0x4B :: byte] < length (bytes_of ''OKAY'')" by (simp add: bytes_of_def)
  from general buf show "FindTextPatternASCII example_process (bytes_of ''OKAY'') = Some []"
    by (simp add: FindTextPatternASCII_def example_process_def ReadProcessMemory_def
        MEM_COMMIT_def PAGE_READWRITE_def bytes_of_def)
  have buf': "read_range example_process 4096 2 = [0x4F, 0x4B]"
    by (simp add: read_range_def example_process_def upt_rec)
  have r1: "ScanMemory_region [0x4F, 0x4B] [] []
       \<lparr>r_base = 4096, r_size = 2, r_state = MEM_COMMIT, r_protect = PAGE_READWRITE, r_readable = True\<rparr>
       2 0 [] =
     Some (Inr [\<lparr>s_address = 4096, s_region = 4096, s_size = 2\<rparr>,
                \<lparr>s_address = 4097, s_region = 4096, s_size = 2\<rparr>,
                \<lparr>s_address = 4098, s_region = 4096, s_size = 2\<rparr>])"
    by (simp add: ScanMemory_region.simps c_str_def)
  show "ScanMemory example_process [] [] =
     Some (Inr [\<lparr>s_address = 4096, s_region = 4096, s_size = 2\<rparr>,
                \<lparr>s_address = 4097, s_region = 4096, s_size = 2\<rparr>,
                \<lparr>s_address = 4098, s_region = 4096, s_size = 2\<rparr>])"
    using r1 buf'
    by (simp add: ScanMemory_def example_process_def ReadProcessMemory_def
        MEM_COMMIT_def PAGE_READWRITE_def PAGE_EXECUTE_READWRITE_def PAGE_EXECUTE_READ_def PAGE_READONLY_def)
  have r2: "ScanMemory_region [0x4F, 0x4B] [0x4F, 0x4B, 0x21] (bytes_of ''xxx'')
       \<lparr>r_base = 4096, r_size = 2, r_state = MEM_COMMIT, r_protect = PAGE_READWRITE, r_readable = True\<rparr>
       (2 - 3) 0 [] = Some (Inl OutOfBounds)"
    by (simp add: ScanMemory_region.simps c_str_def bytes_of_def)
  show "ScanMemory example_process [0x4F, 0x4B, 0x21] (bytes_of ''xxx'') = Some (Inl OutOfBounds)"
    using r2 buf'
    by (simp add: ScanMemory_def example_process_def ReadProcessMemory_def
        MEM_COMMIT_def PAGE_READWRITE_def PAGE_EXECUTE_READWRITE_def PAGE_EXECUTE_READ_def PAGE_READONLY_def)
qed

end
